theory Spec2Isabelle
  imports Complex_Main "HOL-Library.AList" "HOL-Library.Char_ord" "HOL-Library.List_Lexorder"
begin

section \<open>The streaming subsystem of src/tools/websocket_tools.py\<close>

text \<open>
  The embedding follows \<^verbatim>\<open>WebSocketManager\<close> and \<^verbatim>\<open>WebSocketTools\<close>. One coroutine runs
  at a time and every operation below is taken from its call to its return, so an
  operation is a function from the manager to a result and the manager afterwards.
  A raised exception is the \<open>Inl\<close> of the result; the manager that comes with it is the
  one the exception leaves behind.
\<close>

subsection \<open>Values\<close>

text \<open>
  What \<^verbatim>\<open>json.loads\<close> produces and \<^verbatim>\<open>json.dumps\<close> accepts. A Python dict is an
  association list in insertion order, with distinct keys. A string is the sequence of
  the bytes of its UTF-8 encoding. An \<^verbatim>\<open>int\<close> and a \<^verbatim>\<open>float\<close> are different values, as
  \<^verbatim>\<open>json.dumps\<close> writes them differently; the code does no arithmetic on a float, and
  a float is given by the text \<^verbatim>\<open>repr\<close> writes for it.
\<close>

datatype json = JNull | JBool bool | JInt int | JFloat string | JStr string | JArr "json list"
  | JObj "(string \<times> json) list"

type_synonym pydict = "(string \<times> json) list"

text \<open>A callback is an opaque handle: the model records that it was called and with
  which message, not what it does.\<close>

type_synonym callback = nat

datatype error =
    NotConnected             \<comment> \<open>\<^verbatim>\<open>Exception("WebSocket not connected")\<close>\<close>
  | SendFailed               \<comment> \<open>whatever \<^verbatim>\<open>ws.send\<close> raised\<close>
  | ConnectFailed            \<comment> \<open>whatever \<^verbatim>\<open>websockets.connect\<close> raised\<close>
  | SubscribeFailed error    \<comment> \<open>\<^verbatim>\<open>Exception(f"Failed to subscribe: {str(e)}")\<close>\<close>
  | NotFound string          \<comment> \<open>\<^verbatim>\<open>ValueError(f"Subscription {sub_id} not found")\<close>\<close>
  | InvalidDataType string   \<comment> \<open>\<^verbatim>\<open>ValueError(f"Invalid data type: {data_type}. ...")\<close>\<close>
  | MaxReconnect             \<comment> \<open>\<^verbatim>\<open>Exception("Failed to reconnect after maximum attempts")\<close>\<close>
  | AttributeError           \<comment> \<open>\<^verbatim>\<open>.get\<close> or \<^verbatim>\<open>.split\<close> on a value that has no such method\<close>

subsection \<open>The environment\<close>

text \<open>
  The transport, the clock and the library functions are not part of the repository.
  They are parameters: \<open>ws_connect E k\<close> tells whether the \<open>k\<close>-th call of
  \<^verbatim>\<open>websockets.connect\<close> succeeds, \<open>ws_send E k\<close> whether the \<open>k\<close>-th call of
  \<^verbatim>\<open>ws.send\<close> does, \<open>now E k\<close> is the \<open>k\<close>-th reading of
  \<^verbatim>\<open>datetime.now().isoformat()\<close>; \<open>pyhash\<close> is Python's \<^verbatim>\<open>hash\<close> on strings,
  \<open>json_dumps\<close> is \<^verbatim>\<open>json.dumps\<close> and \<open>json_loads\<close> is \<^verbatim>\<open>json.loads\<close>, with
  \<open>None\<close> for \<^verbatim>\<open>JSONDecodeError\<close>; \<open>str_lower\<close> is \<^verbatim>\<open>str.lower\<close>, which follows the
  case mapping of Unicode.
\<close>

record env =
  ws_connect :: "nat \<Rightarrow> bool"
  ws_send :: "nat \<Rightarrow> bool"
  now :: "nat \<Rightarrow> string"
  pyhash :: "string \<Rightarrow> int"
  json_dumps :: "json \<Rightarrow> string"
  json_loads :: "string \<Rightarrow> json option"
  str_lower :: "string \<Rightarrow> string"

subsection \<open>The manager\<close>

text \<open>One value of \<^verbatim>\<open>self.subscriptions\<close>.\<close>

record sub_data =
  sub_type :: string
  sub_params :: pydict
  sub_message :: json
  sub_callback :: "callback option"
  sub_messages_received :: nat
  subscribed_at :: string

text \<open>\<^verbatim>\<open>self.stats\<close>.\<close>

record stats =
  messages_received :: nat
  messages_sent :: nat
  reconnections :: nat
  last_message_time :: "string option"
  connection_start_time :: "string option"

text \<open>
  \<^verbatim>\<open>WebSocketManager\<close>. \<open>ws\<close> says that \<^verbatim>\<open>self.ws\<close> is not \<^verbatim>\<open>None\<close>;
  \<open>connected_flag\<close> is \<^verbatim>\<open>self.connected\<close>. The last six fields are not in the class:
  they count the calls made to the environment and log what the manager did to it
  (the messages written to the socket, the delays slept, the callbacks called).
\<close>

record manager =
  ws :: bool
  connected_flag :: bool
  subscriptions :: "(string \<times> sub_data) list"
  message_handlers :: "(string \<times> callback list) list"
  reconnect_attempts :: nat
  max_reconnect_attempts :: nat
  base_reconnect_delay :: real
  message_queue :: "(string \<times> json) list"
  stats :: stats
  n_connect :: nat
  n_send :: nat
  n_now :: nat
  wire :: "json list"
  sleeps :: "real list"
  invoked :: "(callback \<times> json) list"

text \<open>\<^verbatim>\<open>WebSocketManager.__init__\<close>.\<close>

definition init_manager :: manager where
  "init_manager = \<lparr> ws = False, connected_flag = False, subscriptions = [],
     message_handlers = [], reconnect_attempts = 0, max_reconnect_attempts = 5,
     base_reconnect_delay = 1, message_queue = [],
     stats = \<lparr> messages_received = 0, messages_sent = 0, reconnections = 0,
       last_message_time = None, connection_start_time = None \<rparr>,
     n_connect = 0, n_send = 0, n_now = 0, wire = [], sleeps = [], invoked = [] \<rparr>"

subsection \<open>Library functions written out\<close>

text \<open>\<^verbatim>\<open>str(n)\<close> for an integer.\<close>

fun str_nat :: "nat \<Rightarrow> string" where
  "str_nat n = (if n < 10 then [char_of (48 + n)]
     else str_nat (n div 10) @ [char_of (48 + n mod 10)])"

definition str_int :: "int \<Rightarrow> string" where
  "str_int i = (if i < 0 then CHR ''-'' # str_nat (nat (- i)) else str_nat (nat i))"

text \<open>What \<^verbatim>\<open>sort_keys=True\<close> does to a value before \<^verbatim>\<open>json.dumps\<close> writes it.\<close>

primrec sort_keys :: "json \<Rightarrow> json" where
  "sort_keys JNull = JNull"
| "sort_keys (JBool b) = JBool b"
| "sort_keys (JInt n) = JInt n"
| "sort_keys (JFloat x) = JFloat x"
| "sort_keys (JStr s) = JStr s"
| "sort_keys (JArr xs) = JArr (map sort_keys xs)"
| "sort_keys (JObj kvs) = JObj (sort_key fst (map (map_prod id sort_keys) kvs))"

text \<open>\<^verbatim>\<open>{**d, **e}\<close>: the items of \<open>e\<close> stored into \<open>d\<close> one after the other.\<close>

definition dict_merge :: "pydict \<Rightarrow> pydict \<Rightarrow> pydict" where
  "dict_merge d e = fold (\<lambda>kv. AList.update (fst kv) (snd kv)) e d"

subsection \<open>Sending\<close>

text \<open>\<^verbatim>\<open>_send_message\<close>.\<close>

definition send_message :: "env \<Rightarrow> json \<Rightarrow> manager \<Rightarrow> (error + unit) \<times> manager" where
  "send_message E message st =
     (if \<not> connected_flag st \<or> \<not> ws st then (Inl NotConnected, st)
      else if ws_send E (n_send st)
        then (Inr (), st\<lparr> stats := (stats st)\<lparr> messages_sent := messages_sent (stats st) + 1 \<rparr>,
                          n_send := n_send st + 1, wire := wire st @ [message] \<rparr>)
        else (Inl SendFailed, st\<lparr> n_send := n_send st + 1 \<rparr>))"

subsection \<open>The registry\<close>

definition subscribe_message :: "string \<Rightarrow> pydict \<Rightarrow> json" where
  "subscribe_message subscription_type params =
     JObj [(''method'', JStr ''subscribe''),
           (''subscription'', JObj (dict_merge [(''type'', JStr subscription_type)] params))]"

definition unsubscribe_message :: "sub_data \<Rightarrow> json" where
  "unsubscribe_message sd =
     JObj [(''method'', JStr ''unsubscribe''),
           (''subscription'', JObj (dict_merge [(''type'', JStr (sub_type sd))] (sub_params sd)))]"

text \<open>The \<^verbatim>\<open>sub_id\<close> of \<^verbatim>\<open>subscribe\<close>:
  \<^verbatim>\<open>f"{subscription_type}_{hash(json.dumps(params, sort_keys=True))}"\<close>.\<close>

definition make_sub_id :: "env \<Rightarrow> string \<Rightarrow> pydict \<Rightarrow> string" where
  "make_sub_id E subscription_type params =
     subscription_type @ ''_'' @ str_int (pyhash E (json_dumps E (sort_keys (JObj params))))"

text \<open>\<^verbatim>\<open>self.message_handlers[sub_id]\<close>, or the empty list when the key is absent.\<close>

definition handlers_of :: "(string \<times> callback list) list \<Rightarrow> string \<Rightarrow> callback list" where
  "handlers_of mh sub_id = (case map_of mh sub_id of None \<Rightarrow> [] | Some hs \<Rightarrow> hs)"

text \<open>\<^verbatim>\<open>WebSocketManager.subscribe\<close>.\<close>

definition subscribe ::
  "env \<Rightarrow> string \<Rightarrow> pydict \<Rightarrow> callback option \<Rightarrow> manager \<Rightarrow> (error + string) \<times> manager" where
  "subscribe E subscription_type params callback st =
     (let message = subscribe_message subscription_type params;
          sub_id = make_sub_id E subscription_type params;
          st1 = st\<lparr> subscriptions := AList.update sub_id
                      \<lparr> sub_type = subscription_type, sub_params = params,
                        sub_message = message, sub_callback = callback,
                        sub_messages_received = 0, subscribed_at = now E (n_now st) \<rparr>
                      (subscriptions st),
                    n_now := n_now st + 1 \<rparr>;
          st2 = (case callback of
                   None \<Rightarrow> st1
                 | Some cb \<Rightarrow> st1\<lparr> message_handlers := AList.update sub_id
                      (handlers_of (message_handlers st1) sub_id @ [cb]) (message_handlers st1) \<rparr>)
      in case send_message E message st2 of
           (Inr u, st3) \<Rightarrow> (Inr sub_id, st3)
         | (Inl e, st3) \<Rightarrow>
             (Inl (SubscribeFailed e),
              st3\<lparr> subscriptions := AList.delete sub_id (subscriptions st3) \<rparr>))"

text \<open>\<^verbatim>\<open>WebSocketManager.unsubscribe\<close>.\<close>

definition unsubscribe :: "env \<Rightarrow> string \<Rightarrow> manager \<Rightarrow> (error + unit) \<times> manager" where
  "unsubscribe E sub_id st =
     (case map_of (subscriptions st) sub_id of
        None \<Rightarrow> (Inl (NotFound sub_id), st)
      | Some sd \<Rightarrow>
          (case send_message E (unsubscribe_message sd) st of
             (Inr u, st1) \<Rightarrow>
               (Inr (), st1\<lparr> subscriptions := AList.delete sub_id (subscriptions st1),
                             message_handlers := AList.delete sub_id (message_handlers st1) \<rparr>)
           | (Inl e, st1) \<Rightarrow> (Inl e, st1)))"

text \<open>\<^verbatim>\<open>_resubscribe_all\<close>: a failed send is logged and the loop goes on.\<close>

fun resubscribe_loop :: "env \<Rightarrow> (string \<times> sub_data) list \<Rightarrow> manager \<Rightarrow> manager" where
  "resubscribe_loop E [] st = st"
| "resubscribe_loop E (item # rest) st =
     resubscribe_loop E rest (snd (send_message E (sub_message (snd item)) st))"

definition resubscribe_all :: "env \<Rightarrow> manager \<Rightarrow> manager" where
  "resubscribe_all E st =
     (if subscriptions st = [] then st else resubscribe_loop E (subscriptions st) st)"

subsection \<open>Connecting\<close>

text \<open>\<^verbatim>\<open>connect\<close>.\<close>

definition connect :: "env \<Rightarrow> manager \<Rightarrow> (error + unit) \<times> manager" where
  "connect E st =
     (if ws_connect E (n_connect st)
      then (Inr (),
            resubscribe_all E
              (st\<lparr> ws := True, connected_flag := True, reconnect_attempts := 0,
                   stats := (stats st)\<lparr> connection_start_time := Some (now E (n_now st)) \<rparr>,
                   n_now := n_now st + 1, n_connect := n_connect st + 1 \<rparr>))
      else (Inl ConnectFailed, st\<lparr> connected_flag := False, n_connect := n_connect st + 1 \<rparr>))"

text \<open>\<^verbatim>\<open>reconnect\<close>, which calls itself after a failed \<^verbatim>\<open>connect\<close>. The counter is
  incremented first; the delay is \<^verbatim>\<open>base_reconnect_delay * (2 ** (reconnect_attempts - 1))\<close>
  with the new counter, and \<^verbatim>\<open>asyncio.sleep(delay)\<close> is recorded in \<open>sleeps\<close>.\<close>

function reconnect :: "env \<Rightarrow> manager \<Rightarrow> (error + unit) \<times> manager" where
  "reconnect E st =
     (if reconnect_attempts st \<ge> max_reconnect_attempts st then (Inl MaxReconnect, st)
      else
        (case connect E
                (st\<lparr> reconnect_attempts := reconnect_attempts st + 1,
                     sleeps := sleeps st @
                       [base_reconnect_delay st * 2 ^ (reconnect_attempts st + 1 - 1)] \<rparr>) of
           (Inr u, st3) \<Rightarrow>
             (Inr (), st3\<lparr> stats := (stats st3)\<lparr> reconnections := reconnections (stats st3) + 1 \<rparr> \<rparr>)
         | (Inl e, st3) \<Rightarrow> reconnect E st3))"
  by pat_completeness auto
termination
  by (relation "measure (\<lambda>(E, st). max_reconnect_attempts st - reconnect_attempts st)")
     (auto simp: connect_def split: if_splits)

declare reconnect.simps [simp del]

subsection \<open>Routing\<close>

text \<open>\<^verbatim>\<open>message.get("channel", "")\<close> on a dict, and \<^verbatim>\<open>s.split("@")[0]\<close> on a string.\<close>

definition get_channel :: "pydict \<Rightarrow> json" where
  "get_channel message = (case map_of message ''channel'' of None \<Rightarrow> JStr [] | Some v \<Rightarrow> v)"

definition before_at :: "string \<Rightarrow> string" where
  "before_at s = takeWhile (\<lambda>c. c \<noteq> CHR ''@'') s"

text \<open>\<^verbatim>\<open>_message_matches_subscription\<close>. The message is a dict here; \<^verbatim>\<open>.split\<close> exists
  on a string only.\<close>

definition message_matches_subscription :: "env \<Rightarrow> pydict \<Rightarrow> sub_data \<Rightarrow> error + bool" where
  "message_matches_subscription E message subscription =
     (case get_channel message of
        JStr channel \<Rightarrow>
          Inr (str_lower E (before_at channel) = str_lower E (sub_type subscription))
      | _ \<Rightarrow> Inl AttributeError)"

text \<open>
  The loop of \<^verbatim>\<open>_handle_message\<close> over \<^verbatim>\<open>self.subscriptions.items()\<close>. It returns the
  items as the loop leaves them and the calls it made; an exception of the match stops
  it where it is. An exception raised by a callback is caught and logged inside the
  loop, so a call is recorded and the loop goes on.
\<close>

fun dispatch :: "env \<Rightarrow> pydict \<Rightarrow> (string \<times> callback list) list \<Rightarrow>
    (string \<times> sub_data) list \<Rightarrow>
    (error + unit) \<times> (string \<times> sub_data) list \<times> (callback \<times> json) list" where
  "dispatch E d mh [] = (Inr (), [], [])"
| "dispatch E d mh (item # rest) =
     (case message_matches_subscription E d (snd item) of
        Inl e \<Rightarrow> (Inl e, item # rest, [])
      | Inr m \<Rightarrow>
          (case dispatch E d mh rest of (r, rest', calls) \<Rightarrow>
             if m
             then (r, (fst item, (snd item)\<lparr> sub_messages_received :=
                          sub_messages_received (snd item) + 1 \<rparr>) # rest',
                   map (\<lambda>h. (h, JObj d)) (handlers_of mh (fst item)) @ calls)
             else (r, item # rest', calls)))"

text \<open>\<^verbatim>\<open>_handle_message\<close>. Both \<^verbatim>\<open>except\<close> clauses log and return.\<close>

definition handle_message :: "env \<Rightarrow> string \<Rightarrow> manager \<Rightarrow> manager" where
  "handle_message E message st =
     (case json_loads E message of
        None \<Rightarrow> st
      | Some data \<Rightarrow>
          (let st1 = st\<lparr> stats := (stats st)\<lparr> messages_received := messages_received (stats st) + 1,
                                              last_message_time := Some (now E (n_now st)) \<rparr>,
                         n_now := n_now st + 1 \<rparr>
           in case data of
                JObj d \<Rightarrow>
                  (case dispatch E d (message_handlers st1) (subscriptions st1) of
                     (Inl e, subs, calls) \<Rightarrow>
                       st1\<lparr> subscriptions := subs, invoked := invoked st1 @ calls \<rparr>
                   | (Inr u, subs, calls) \<Rightarrow>
                       st1\<lparr> subscriptions := subs, invoked := invoked st1 @ calls,
                            message_queue := message_queue st1 @ [(now E (n_now st1), data)],
                            n_now := n_now st1 + 1 \<rparr>)
              | _ \<Rightarrow> st1))"

subsection \<open>The facade\<close>

definition valid_types :: "string list" where
  "valid_types = [''l2Book'', ''trades'', ''candle'']"

text \<open>The cleanup loop of \<^verbatim>\<open>subscribe_market_data\<close>: \<^verbatim>\<open>try: unsubscribe except: pass\<close>.\<close>

fun rollback :: "env \<Rightarrow> string list \<Rightarrow> manager \<Rightarrow> manager" where
  "rollback E [] st = st"
| "rollback E (existing_sub_id # ids) st = rollback E ids (snd (unsubscribe E existing_sub_id st))"

definition market_params :: "string \<Rightarrow> string \<Rightarrow> pydict" where
  "market_params coin data_type =
     (if data_type = ''candle'' then [(''coin'', JStr coin), (''interval'', JStr ''1m'')]
      else [(''coin'', JStr coin)])"

text \<open>The second loop of \<^verbatim>\<open>subscribe_market_data\<close>, with \<^verbatim>\<open>subscription_ids\<close> as it grows.\<close>

fun subscribe_each :: "env \<Rightarrow> string \<Rightarrow> string list \<Rightarrow> callback option \<Rightarrow> string list \<Rightarrow>
    manager \<Rightarrow> (error + string list) \<times> manager" where
  "subscribe_each E coin [] callback subscription_ids st = (Inr subscription_ids, st)"
| "subscribe_each E coin (data_type # rest) callback subscription_ids st =
     (case subscribe E data_type (market_params coin data_type) callback st of
        (Inr sub_id, st1) \<Rightarrow> subscribe_each E coin rest callback (subscription_ids @ [sub_id]) st1
      | (Inl e, st1) \<Rightarrow> (Inl e, rollback E subscription_ids st1))"

text \<open>\<^verbatim>\<open>WebSocketTools.subscribe_market_data\<close>.\<close>

definition subscribe_market_data ::
  "env \<Rightarrow> string \<Rightarrow> string list \<Rightarrow> callback option \<Rightarrow> manager \<Rightarrow> (error + string list) \<times> manager" where
  "subscribe_market_data E coin data_types callback st =
     (case find (\<lambda>data_type. data_type \<notin> set valid_types) data_types of
        Some data_type \<Rightarrow> (Inl (InvalidDataType data_type), st)
      | None \<Rightarrow> subscribe_each E coin data_types callback [] st)"

text \<open>One item of the list \<^verbatim>\<open>get_active_subscriptions\<close> returns.\<close>

record subscription_info =
  info_subscription_id :: string
  info_subscription_type :: string
  info_params :: pydict
  info_connected :: bool
  info_messages_received :: nat
  info_subscribed_at :: string

text \<open>\<^verbatim>\<open>WebSocketTools.get_active_subscriptions\<close>.\<close>

definition get_active_subscriptions :: "manager \<Rightarrow> subscription_info list \<times> manager" where
  "get_active_subscriptions st =
     (map (\<lambda>item. \<lparr> info_subscription_id = fst item,
                    info_subscription_type = sub_type (snd item),
                    info_params = sub_params (snd item),
                    info_connected = connected_flag st,
                    info_messages_received = sub_messages_received (snd item),
                    info_subscribed_at = subscribed_at (snd item) \<rparr>) (subscriptions st), st)"

text \<open>
  \<^verbatim>\<open>WebSocketTools.get_next_message\<close>: \<^verbatim>\<open>asyncio.wait_for(queue.get(), timeout)\<close>, with
  \<^verbatim>\<open>TimeoutError\<close> turned into \<^verbatim>\<open>None\<close>. With a timeout that is not positive,
  \<^verbatim>\<open>wait_for\<close> cancels the \<^verbatim>\<open>get\<close> before it has run. Otherwise \<^verbatim>\<open>get\<close> takes the
  head of the queue; on an empty queue it waits, and \<open>arrival\<close> is the message the
  listener puts on the queue before the timeout, if there is one.
\<close>

definition get_next_message ::
  "real \<Rightarrow> (string \<times> json) option \<Rightarrow> manager \<Rightarrow> (string \<times> json) option \<times> manager" where
  "get_next_message timeout arrival st =
     (if timeout \<le> 0 then (None, st)
      else (case message_queue st of
              m # rest \<Rightarrow> (Some m, st\<lparr> message_queue := rest \<rparr>)
            | [] \<Rightarrow> (case arrival of Some m \<Rightarrow> (Some m, st) | None \<Rightarrow> (None, st))))"

subsection \<open>Concrete environments and managers\<close>

text \<open>
  An environment in which every connection attempt and every send succeeds. Its hash is
  the sum of the character codes, its serialiser writes the keys and the string values
  of a dict one after the other, its parser knows four messages, and its \<^verbatim>\<open>str.lower\<close>
  is the one of the ASCII letters, which is all its messages contain.
\<close>

definition ascii_lower :: "string \<Rightarrow> string" where
  "ascii_lower s =
     map (\<lambda>c. if CHR ''A'' \<le> c \<and> c \<le> CHR ''Z'' then char_of (of_char c + (32::nat)) else c) s"

definition example_env :: env where
  "example_env = \<lparr> ws_connect = (\<lambda>k. True), ws_send = (\<lambda>k. True),
     now = (\<lambda>k. ''T'' @ str_nat k),
     pyhash = (\<lambda>s. int (sum_list (map of_char s))),
     json_dumps = (\<lambda>j. case j of
        JObj kvs \<Rightarrow> concat (map (\<lambda>kv. fst kv @ (case snd kv of JStr s \<Rightarrow> s | _ \<Rightarrow> [])) kvs)
      | _ \<Rightarrow> []),
     json_loads = (\<lambda>s.
        if s = ''trades BTC'' then Some (JObj [(''channel'', JStr ''trades@BTC'')])
        else if s = ''list'' then Some (JArr [JInt 1])
        else if s = ''Trades'' then Some (JObj [(''channel'', JStr ''Trades''), (''data'', JArr [])])
        else if s = ''channel 5'' then Some (JObj [(''channel'', JInt 5)])
        else None),
     str_lower = ascii_lower \<rparr>"

text \<open>The same environment, except that the sends numbered in \<open>bad\<close> fail.\<close>

definition flaky_env :: "nat list \<Rightarrow> env" where
  "flaky_env bad = example_env\<lparr> ws_send := (\<lambda>k. k \<notin> set bad) \<rparr>"

text \<open>The same environment, except that the sends numbered \<open>n\<close> and above fail.\<close>

definition lossy_env :: "nat \<Rightarrow> env" where
  "lossy_env n = example_env\<lparr> ws_send := (\<lambda>k. k < n) \<rparr>"

text \<open>The same environment, except that no connection attempt succeeds.\<close>

definition dead_env :: env where
  "dead_env = example_env\<lparr> ws_connect := (\<lambda>k. False) \<rparr>"

text \<open>A fresh manager after \<^verbatim>\<open>connect\<close>, and after one \<^verbatim>\<open>subscribe\<close> to the trades of BTC
  with callback 1.\<close>

definition connected_manager :: "env \<Rightarrow> manager" where
  "connected_manager E = snd (connect E init_manager)"

definition trades_manager :: "env \<Rightarrow> manager" where
  "trades_manager E =
     snd (subscribe E ''trades'' [(''coin'', JStr ''BTC'')] (Some 1) (connected_manager E))"

text \<open>The callbacks a call brings: none or one.\<close>

definition callback_list :: "callback option \<Rightarrow> callback list" where
  "callback_list c = (case c of None \<Rightarrow> [] | Some cb \<Rightarrow> [cb])"

text \<open>A connected manager with three subscriptions: the book of BTC and the trades of BTC
  with callback 1, and the trades of ETH with callback 2.\<close>

definition market_manager :: "env \<Rightarrow> manager" where
  "market_manager E =
     snd (subscribe E ''trades'' [(''coin'', JStr ''ETH'')] (Some 2)
       (snd (subscribe_market_data E ''BTC'' [''l2Book'', ''trades''] (Some 1) (connected_manager E))))"

text \<open>What the routing loop does to an entry it delivers to, and whether
  \<^verbatim>\<open>_handle_message\<close> delivers a received text to an entry: the text parses as a dict
  and \<^verbatim>\<open>_message_matches_subscription\<close> returns \<^verbatim>\<open>True\<close>.\<close>

definition deliver :: "sub_data \<Rightarrow> sub_data" where
  "deliver sd = sd\<lparr> sub_messages_received := sub_messages_received sd + 1 \<rparr>"

definition delivers_to :: "env \<Rightarrow> string \<Rightarrow> sub_data \<Rightarrow> bool" where
  "delivers_to E message sd =
     (case json_loads E message of
        Some (JObj d) \<Rightarrow> message_matches_subscription E d sd = Inr True
      | _ \<Rightarrow> False)"

text \<open>The identities in the registry, and the identity \<^verbatim>\<open>subscribe_market_data\<close> gives to
  a data type of a coin.\<close>

definition registered :: "manager \<Rightarrow> string set" where
  "registered st = fst ` set (subscriptions st)"

definition market_id :: "env \<Rightarrow> string \<Rightarrow> string \<Rightarrow> string" where
  "market_id E coin data_type = make_sub_id E data_type (market_params coin data_type)"

text \<open>The manager with three subscriptions after two trades messages.\<close>

definition two_messages :: "env \<Rightarrow> manager" where
  "two_messages E = handle_message E ''Trades'' (handle_message E ''Trades'' (market_manager E))"

section \<open>Properties\<close>

subsection \<open>Sending\<close>

lemma send_message_frame:
  "subscriptions (snd (send_message E m st)) = subscriptions st"
  "message_handlers (snd (send_message E m st)) = message_handlers st"
  "connected_flag (snd (send_message E m st)) = connected_flag st"
  "ws (snd (send_message E m st)) = ws st"
  "message_queue (snd (send_message E m st)) = message_queue st"
  "n_now (snd (send_message E m st)) = n_now st"
  "invoked (snd (send_message E m st)) = invoked st"
  by (simp_all add: send_message_def)

lemma send_message_ok:
  "connected_flag st \<Longrightarrow> ws st \<Longrightarrow> ws_send E (n_send st) \<Longrightarrow>
   send_message E m st =
     (Inr (), st\<lparr> stats := (stats st)\<lparr> messages_sent := messages_sent (stats st) + 1 \<rparr>,
                  n_send := n_send st + 1, wire := wire st @ [m] \<rparr>)"
  by (simp add: send_message_def)

lemma send_message_fails:
  "\<not> (connected_flag st \<and> ws st \<and> ws_send E (n_send st)) \<Longrightarrow>
   \<exists>e. fst (send_message E m st) = Inl e"
  by (auto simp add: send_message_def)

subsection \<open>Listing the subscriptions\<close>

text \<open>
  C8. \<^verbatim>\<open>get_active_subscriptions\<close> returns one item for each entry of the registry, in the
  registry's order. The item carries the entry's identity, kind, parameters, counter and
  creation time, and the manager's connected flag; an item has these six fields and no
  other. The manager is the same after the call as before.
\<close>

theorem get_active_subscriptions_read_only:
  "snd (get_active_subscriptions st) = st \<and>
   length (fst (get_active_subscriptions st)) = length (subscriptions st) \<and>
   map info_subscription_id (fst (get_active_subscriptions st)) = map fst (subscriptions st) \<and>
   map info_subscription_type (fst (get_active_subscriptions st)) =
     map (\<lambda>item. sub_type (snd item)) (subscriptions st) \<and>
   map info_params (fst (get_active_subscriptions st)) =
     map (\<lambda>item. sub_params (snd item)) (subscriptions st) \<and>
   map info_connected (fst (get_active_subscriptions st)) =
     replicate (length (subscriptions st)) (connected_flag st) \<and>
   map info_messages_received (fst (get_active_subscriptions st)) =
     map (\<lambda>item. sub_messages_received (snd item)) (subscriptions st) \<and>
   map info_subscribed_at (fst (get_active_subscriptions st)) =
     map (\<lambda>item. subscribed_at (snd item)) (subscriptions st)"
  by (simp add: get_active_subscriptions_def comp_def map_replicate_const)

text \<open>The listing of a manager with one subscription.\<close>

theorem get_active_subscriptions_read_only_witness:
  "fst (get_active_subscriptions (trades_manager example_env)) =
     [\<lparr> info_subscription_id = ''trades_642'', info_subscription_type = ''trades'',
        info_params = [(''coin'', JStr ''BTC'')], info_connected = True,
        info_messages_received = 0, info_subscribed_at = ''T1'' \<rparr>] \<and>
   snd (get_active_subscriptions (trades_manager example_env)) = trades_manager example_env"
proof -
  have "fst (get_active_subscriptions (trades_manager example_env)) =
     [\<lparr> info_subscription_id = ''trades_642'', info_subscription_type = ''trades'',
        info_params = [(''coin'', JStr ''BTC'')], info_connected = True,
        info_messages_received = 0, info_subscribed_at = ''T1'' \<rparr>]"
    by code_simp
  then show ?thesis
    using get_active_subscriptions_read_only [of "trades_manager example_env"] by simp
qed

subsection \<open>Unsubscribing\<close>

text \<open>
  C3, as the code has it. \<^verbatim>\<open>unsubscribe\<close> of an identity that is not in the registry
  fails with the not-found error and leaves the manager as it was. For an identity that
  is in the registry: when the unsubscribe message is sent, the entry and its callbacks
  are removed; when the send fails, the call fails with the error of the send and the
  entry and its callbacks stay.
\<close>

theorem unsubscribe_outcomes:
  "(map_of (subscriptions st) sub_id = None \<longrightarrow>
      unsubscribe E sub_id st = (Inl (NotFound sub_id), st)) \<and>
   (map_of (subscriptions st) sub_id \<noteq> None \<and> connected_flag st \<and> ws st \<and> ws_send E (n_send st) \<longrightarrow>
      fst (unsubscribe E sub_id st) = Inr () \<and>
      subscriptions (snd (unsubscribe E sub_id st)) = AList.delete sub_id (subscriptions st) \<and>
      message_handlers (snd (unsubscribe E sub_id st)) = AList.delete sub_id (message_handlers st) \<and>
      sub_id \<notin> fst ` set (subscriptions (snd (unsubscribe E sub_id st))) \<and>
      sub_id \<notin> fst ` set (message_handlers (snd (unsubscribe E sub_id st)))) \<and>
   (map_of (subscriptions st) sub_id \<noteq> None \<and> \<not> (connected_flag st \<and> ws st \<and> ws_send E (n_send st)) \<longrightarrow>
      (\<exists>e. fst (unsubscribe E sub_id st) = Inl e) \<and>
      subscriptions (snd (unsubscribe E sub_id st)) = subscriptions st \<and>
      message_handlers (snd (unsubscribe E sub_id st)) = message_handlers st)"
proof (intro conjI impI)
  assume "map_of (subscriptions st) sub_id = None"
  then show "unsubscribe E sub_id st = (Inl (NotFound sub_id), st)"
    by (simp add: unsubscribe_def)
next
  assume a: "map_of (subscriptions st) sub_id \<noteq> None \<and> connected_flag st \<and> ws st \<and> ws_send E (n_send st)"
  then obtain sd where sd: "map_of (subscriptions st) sub_id = Some sd" by auto
  from a have ok: "send_message E (unsubscribe_message sd) st =
      (Inr (), st\<lparr> stats := (stats st)\<lparr> messages_sent := messages_sent (stats st) + 1 \<rparr>,
                   n_send := n_send st + 1, wire := wire st @ [unsubscribe_message sd] \<rparr>)"
    by (simp add: send_message_ok)
  show "fst (unsubscribe E sub_id st) = Inr ()"
    by (simp add: unsubscribe_def sd ok)
  show s: "subscriptions (snd (unsubscribe E sub_id st)) = AList.delete sub_id (subscriptions st)"
    by (simp add: unsubscribe_def sd ok)
  show h: "message_handlers (snd (unsubscribe E sub_id st)) = AList.delete sub_id (message_handlers st)"
    by (simp add: unsubscribe_def sd ok)
  show "sub_id \<notin> fst ` set (subscriptions (snd (unsubscribe E sub_id st)))"
    unfolding s by (simp add: AList.delete_eq) force
  show "sub_id \<notin> fst ` set (message_handlers (snd (unsubscribe E sub_id st)))"
    unfolding h by (simp add: AList.delete_eq) force
next
  assume a: "map_of (subscriptions st) sub_id \<noteq> None \<and> \<not> (connected_flag st \<and> ws st \<and> ws_send E (n_send st))"
  then obtain sd where sd: "map_of (subscriptions st) sub_id = Some sd" by auto
  from a obtain e where e: "fst (send_message E (unsubscribe_message sd) st) = Inl e"
    using send_message_fails by blast
  obtain st1 where st1: "send_message E (unsubscribe_message sd) st = (Inl e, st1)"
    using e by (cases "send_message E (unsubscribe_message sd) st") auto
  have fr: "subscriptions st1 = subscriptions st" "message_handlers st1 = message_handlers st"
    using send_message_frame(1,2) [of E "unsubscribe_message sd" st] st1 by simp_all
  show "\<exists>e. fst (unsubscribe E sub_id st) = Inl e"
    by (simp add: unsubscribe_def sd st1)
  show "subscriptions (snd (unsubscribe E sub_id st)) = subscriptions st"
    by (simp add: unsubscribe_def sd st1 fr)
  show "message_handlers (snd (unsubscribe E sub_id st)) = message_handlers st"
    by (simp add: unsubscribe_def sd st1 fr)
qed

text \<open>The three cases: an unknown identity on a fresh manager, a known one whose
  unsubscribe message is sent, and a known one whose unsubscribe message is not.\<close>

theorem unsubscribe_outcomes_witness:
  "unsubscribe example_env ''trades_642'' init_manager = (Inl (NotFound ''trades_642''), init_manager) \<and>
   fst (unsubscribe example_env ''trades_642'' (trades_manager example_env)) = Inr () \<and>
   subscriptions (snd (unsubscribe example_env ''trades_642'' (trades_manager example_env))) = [] \<and>
   message_handlers (snd (unsubscribe example_env ''trades_642'' (trades_manager example_env))) = [] \<and>
   subscriptions (snd (unsubscribe (flaky_env [1]) ''trades_642'' (trades_manager (flaky_env [1])))) =
     subscriptions (trades_manager (flaky_env [1])) \<and>
   message_handlers (snd (unsubscribe (flaky_env [1]) ''trades_642'' (trades_manager (flaky_env [1])))) =
     message_handlers (trades_manager (flaky_env [1]))"
proof -
  have a: "map_of (subscriptions init_manager) ''trades_642'' = None"
    by (simp add: init_manager_def)
  have b: "map_of (subscriptions (trades_manager example_env)) ''trades_642'' \<noteq> None \<and>
      connected_flag (trades_manager example_env) \<and> ws (trades_manager example_env) \<and>
      ws_send example_env (n_send (trades_manager example_env))"
    by code_simp
  have c: "map_of (subscriptions (trades_manager (flaky_env [1]))) ''trades_642'' \<noteq> None \<and>
      \<not> (connected_flag (trades_manager (flaky_env [1])) \<and> ws (trades_manager (flaky_env [1])) \<and>
         ws_send (flaky_env [1]) (n_send (trades_manager (flaky_env [1]))))"
    by code_simp
  have d: "AList.delete ''trades_642'' (subscriptions (trades_manager example_env)) = []"
      "AList.delete ''trades_642'' (message_handlers (trades_manager example_env)) = []"
    by code_simp+
  show ?thesis
    using a b c d
      unsubscribe_outcomes [of init_manager "''trades_642''" example_env]
      unsubscribe_outcomes [of "trades_manager example_env" "''trades_642''" example_env]
      unsubscribe_outcomes [of "trades_manager (flaky_env [1])" "''trades_642''" "flaky_env [1]"]
    by simp
qed

text \<open>
  C3 as the specification words it fails. The manager is connected and holds the
  trades subscription with callback 1; the send of the unsubscribe message fails. The
  call fails, and the entry and its callback are still registered.
\<close>

theorem unsubscribe_keeps_entry_counterexample:
  "fst (unsubscribe (flaky_env [1]) ''trades_642'' (trades_manager (flaky_env [1]))) = Inl SendFailed \<and>
   map fst (subscriptions (snd (unsubscribe (flaky_env [1]) ''trades_642'' (trades_manager (flaky_env [1]))))) =
     [''trades_642''] \<and>
   message_handlers (snd (unsubscribe (flaky_env [1]) ''trades_642'' (trades_manager (flaky_env [1])))) =
     [(''trades_642'', [1])]"
  by code_simp

subsection \<open>Subscribing\<close>

text \<open>
  C2 at a concrete input. \<^verbatim>\<open>subscribe\<close> is called with callback 1 on a manager that is
  not connected. The call fails and the registry has no entry, but callback 1 stays in
  \<^verbatim>\<open>message_handlers\<close> under the identity of the failed call. After a \<^verbatim>\<open>connect\<close> and
  a \<^verbatim>\<open>subscribe\<close> of the same identity without a callback, a trades message is
  delivered to callback 1.
\<close>

theorem subscribe_failure_keeps_callback:
  "fst (subscribe example_env ''trades'' [(''coin'', JStr ''BTC'')] (Some 1) init_manager) =
     Inl (SubscribeFailed NotConnected) \<and>
   subscriptions (snd (subscribe example_env ''trades'' [(''coin'', JStr ''BTC'')] (Some 1) init_manager)) = [] \<and>
   message_handlers (snd (subscribe example_env ''trades'' [(''coin'', JStr ''BTC'')] (Some 1) init_manager)) =
     [(''trades_642'', [1])] \<and>
   invoked (handle_message example_env ''Trades''
     (snd (subscribe example_env ''trades'' [(''coin'', JStr ''BTC'')] None
       (snd (connect example_env
         (snd (subscribe example_env ''trades'' [(''coin'', JStr ''BTC'')] (Some 1) init_manager))))))) =
     [(1, JObj [(''channel'', JStr ''Trades''), (''data'', JArr [])])]"
  by code_simp

lemma update_one_entry:
  "distinct (map fst xs) \<Longrightarrow> length (filter (\<lambda>item. fst item = k) (AList.update k v xs)) = 1"
proof (induction xs)
  case Nil
  then show ?case by simp
next
  case (Cons x xs)
  have "k \<notin> fst ` set xs \<Longrightarrow> filter (\<lambda>item. fst item = k) xs = []"
    by (auto simp: filter_empty_conv)
  with Cons show ?case by auto
qed

lemma handlers_of_update:
  "handlers_of (AList.update k v mh) k' = (if k' = k then v else handlers_of mh k')"
  by (simp add: handlers_of_def update_conv')

lemma subscribe_ok:
  assumes "connected_flag st" "ws st" "ws_send E (n_send st)"
  shows "fst (subscribe E t p c st) = Inr (make_sub_id E t p)"
    and "subscriptions (snd (subscribe E t p c st)) =
          AList.update (make_sub_id E t p)
            \<lparr> sub_type = t, sub_params = p, sub_message = subscribe_message t p, sub_callback = c,
              sub_messages_received = 0, subscribed_at = now E (n_now st) \<rparr> (subscriptions st)"
    and "handlers_of (message_handlers (snd (subscribe E t p c st))) k =
          (if k = make_sub_id E t p \<and> c \<noteq> None
           then handlers_of (message_handlers st) k @ [the c]
           else handlers_of (message_handlers st) k)"
    and "wire (snd (subscribe E t p c st)) = wire st @ [subscribe_message t p]"
    and "messages_sent (stats (snd (subscribe E t p c st))) = messages_sent (stats st) + 1"
    and "n_send (snd (subscribe E t p c st)) = n_send st + 1"
    and "connected_flag (snd (subscribe E t p c st))"
    and "ws (snd (subscribe E t p c st))"
    and "n_now (snd (subscribe E t p c st)) = n_now st + 1"
  using assms
  by (cases c; simp add: subscribe_def Let_def send_message_def handlers_of_update)+

text \<open>
  C1, as the code has it. Two \<^verbatim>\<open>subscribe\<close> calls of the same kind, one after the other,
  whose parameters are equal once their keys are sorted, on a connected manager whose
  two sends succeed: both return the same identity, the registry holds one entry for
  it, the callbacks of both calls are attached after those already there, and each call
  writes its own subscribe message to the socket, two messages for the pair. The entry
  stored under the identity is the one of the second call: its parameters, its message,
  its callback, its creation time, and a counter of 0.
\<close>

theorem subscribe_twice:
  assumes "sort_keys (JObj p1) = sort_keys (JObj p2)"
    and "connected_flag st" and "ws st"
    and "ws_send E (n_send st)" and "ws_send E (n_send st + 1)"
    and "distinct (map fst (subscriptions st))"
    and "subscribe E t p1 c1 st = (r1, st1)"
    and "subscribe E t p2 c2 st1 = (r2, st2)"
  shows "r1 = Inr (make_sub_id E t p1) \<and> r2 = r1 \<and>
         length (filter (\<lambda>item. fst item = make_sub_id E t p1) (subscriptions st2)) = 1 \<and>
         handlers_of (message_handlers st2) (make_sub_id E t p1) =
           handlers_of (message_handlers st) (make_sub_id E t p1) @ callback_list c1 @ callback_list c2 \<and>
         wire st2 = wire st @ [subscribe_message t p1, subscribe_message t p2] \<and>
         messages_sent (stats st2) = messages_sent (stats st) + 2 \<and>
         map_of (subscriptions st2) (make_sub_id E t p1) =
           Some \<lparr> sub_type = t, sub_params = p2, sub_message = subscribe_message t p2,
                  sub_callback = c2, sub_messages_received = 0,
                  subscribed_at = now E (n_now st + 1) \<rparr>"
proof -
  have same: "make_sub_id E t p2 = make_sub_id E t p1"
    using assms(1) by (simp add: make_sub_id_def)
  have one: "fst (subscribe E t p1 c1 st) = r1" "snd (subscribe E t p1 c1 st) = st1"
    using assms(7) by simp_all
  have two: "fst (subscribe E t p2 c2 st1) = r2" "snd (subscribe E t p2 c2 st1) = st2"
    using assms(8) by simp_all
  note f = subscribe_ok [OF assms(2,3,4), of t p1 c1, unfolded one]
  have s1: "connected_flag st1" "ws st1" "ws_send E (n_send st1)"
    using f assms(5) by simp_all
  note g = subscribe_ok [OF s1, of t p2 c2, unfolded two same]
  have d1: "distinct (map fst (subscriptions st1))"
    using f(2) assms(6) by (simp add: distinct_update)
  have "length (filter (\<lambda>item. fst item = make_sub_id E t p1) (subscriptions st2)) = 1"
    unfolding g(2) using d1 by (rule update_one_entry)
  moreover have "handlers_of (message_handlers st2) (make_sub_id E t p1) =
      handlers_of (message_handlers st) (make_sub_id E t p1) @ callback_list c1 @ callback_list c2"
    using f(3) [of "make_sub_id E t p1"] g(3) [of "make_sub_id E t p1"]
    by (cases c1; cases c2; simp add: callback_list_def)
  moreover have "map_of (subscriptions st2) (make_sub_id E t p1) =
      Some \<lparr> sub_type = t, sub_params = p2, sub_message = subscribe_message t p2,
             sub_callback = c2, sub_messages_received = 0,
             subscribed_at = now E (n_now st + 1) \<rparr>"
    unfolding g(2) f(9) by (simp add: update_conv')
  ultimately show ?thesis
    using f(1,4,5) g(1,4,5) by simp
qed

text \<open>The trades of BTC subscribed twice, with callbacks 1 and 2, on a connected manager.\<close>

theorem subscribe_twice_witness:
  "fst (subscribe example_env ''trades'' [(''coin'', JStr ''BTC'')] (Some 1) (connected_manager example_env)) =
     Inr ''trades_642'' \<and>
   fst (subscribe example_env ''trades'' [(''coin'', JStr ''BTC'')] (Some 2) (trades_manager example_env)) =
     Inr ''trades_642'' \<and>
   length (filter (\<lambda>item. fst item = ''trades_642'')
     (subscriptions (snd (subscribe example_env ''trades'' [(''coin'', JStr ''BTC'')] (Some 2)
        (trades_manager example_env))))) = 1 \<and>
   messages_sent (stats (snd (subscribe example_env ''trades'' [(''coin'', JStr ''BTC'')] (Some 2)
        (trades_manager example_env)))) = 2 \<and>
   map_of (subscriptions (snd (subscribe example_env ''trades'' [(''coin'', JStr ''BTC'')] (Some 2)
        (trades_manager example_env)))) ''trades_642'' =
     Some \<lparr> sub_type = ''trades'', sub_params = [(''coin'', JStr ''BTC'')],
            sub_message = subscribe_message ''trades'' [(''coin'', JStr ''BTC'')],
            sub_callback = Some 2, sub_messages_received = 0, subscribed_at = ''T2'' \<rparr>"
proof -
  let ?p = "[(''coin'', JStr ''BTC'')]"
  let ?st = "connected_manager example_env"
  have t: "now example_env (n_now ?st + 1) = ''T2''" "now example_env (Suc (n_now ?st)) = ''T2''"
    by code_simp+
  have h: "sort_keys (JObj ?p) = sort_keys (JObj ?p)" "connected_flag ?st" "ws ?st"
      "ws_send example_env (n_send ?st)" "ws_send example_env (n_send ?st + 1)"
      "distinct (map fst (subscriptions ?st))"
    by code_simp+
  have a: "subscribe example_env ''trades'' ?p (Some 1) ?st =
      (fst (subscribe example_env ''trades'' ?p (Some 1) ?st), trades_manager example_env)"
    by (simp add: trades_manager_def)
  have b: "subscribe example_env ''trades'' ?p (Some 2) (trades_manager example_env) =
      (fst (subscribe example_env ''trades'' ?p (Some 2) (trades_manager example_env)),
       snd (subscribe example_env ''trades'' ?p (Some 2) (trades_manager example_env)))"
    by simp
  have id: "make_sub_id example_env ''trades'' ?p = ''trades_642''"
    by code_simp
  have m: "messages_sent (stats ?st) = 0"
    by code_simp
  show ?thesis
    using subscribe_twice [OF h a b] id m t by simp
qed

text \<open>
  C1 as the specification words it fails. The same two calls: nothing has been written
  to the socket before them, and two subscribe messages have been written after them.
\<close>

theorem subscribe_twice_sends_twice_counterexample:
  "fst (subscribe example_env ''trades'' [(''coin'', JStr ''BTC'')] (Some 1) (connected_manager example_env)) =
     Inr ''trades_642'' \<and>
   fst (subscribe example_env ''trades'' [(''coin'', JStr ''BTC'')] (Some 2) (trades_manager example_env)) =
     Inr ''trades_642'' \<and>
   wire (connected_manager example_env) = [] \<and>
   wire (snd (subscribe example_env ''trades'' [(''coin'', JStr ''BTC'')] (Some 2) (trades_manager example_env))) =
     [subscribe_message ''trades'' [(''coin'', JStr ''BTC'')],
      subscribe_message ''trades'' [(''coin'', JStr ''BTC'')]]"
  by code_simp

subsection \<open>Reconnecting\<close>

lemma resubscribe_loop_frame:
  "sleeps (resubscribe_loop E items st) = sleeps st"
  "n_connect (resubscribe_loop E items st) = n_connect st"
  "reconnect_attempts (resubscribe_loop E items st) = reconnect_attempts st"
  "max_reconnect_attempts (resubscribe_loop E items st) = max_reconnect_attempts st"
  "base_reconnect_delay (resubscribe_loop E items st) = base_reconnect_delay st"
  "subscriptions (resubscribe_loop E items st) = subscriptions st"
  "message_handlers (resubscribe_loop E items st) = message_handlers st"
  by (induction items arbitrary: st; simp add: send_message_def)+

lemma resubscribe_all_frame:
  "sleeps (resubscribe_all E st) = sleeps st"
  "n_connect (resubscribe_all E st) = n_connect st"
  "reconnect_attempts (resubscribe_all E st) = reconnect_attempts st"
  "max_reconnect_attempts (resubscribe_all E st) = max_reconnect_attempts st"
  "base_reconnect_delay (resubscribe_all E st) = base_reconnect_delay st"
  "subscriptions (resubscribe_all E st) = subscriptions st"
  "message_handlers (resubscribe_all E st) = message_handlers st"
  by (simp_all add: resubscribe_all_def resubscribe_loop_frame)

lemma reconnect_all_fail:
  "reconnect_attempts st \<le> max_reconnect_attempts st \<Longrightarrow>
   (\<forall>k. n_connect st \<le> k \<and> k < n_connect st + (max_reconnect_attempts st - reconnect_attempts st)
        \<longrightarrow> \<not> ws_connect E k) \<Longrightarrow>
   fst (reconnect E st) = Inl MaxReconnect \<and>
   n_connect (snd (reconnect E st)) = n_connect st + (max_reconnect_attempts st - reconnect_attempts st) \<and>
   sleeps (snd (reconnect E st)) =
     sleeps st @ map (\<lambda>n. base_reconnect_delay st * 2 ^ n)
                    [reconnect_attempts st ..< max_reconnect_attempts st] \<and>
   reconnect_attempts (snd (reconnect E st)) = max_reconnect_attempts st \<and>
   max_reconnect_attempts (snd (reconnect E st)) = max_reconnect_attempts st"
proof (induction E st rule: reconnect.induct)
  case (1 E st)
  show ?case
  proof (cases "max_reconnect_attempts st \<le> reconnect_attempts st")
    case True
    with "1.prems" have eq: "reconnect_attempts st = max_reconnect_attempts st" by simp
    show ?thesis
      by (subst (1 2 3 4 5) reconnect.simps) (simp add: eq)
  next
    case False
    let ?st2 = "st\<lparr> reconnect_attempts := reconnect_attempts st + 1,
                  sleeps := sleeps st @ [base_reconnect_delay st * 2 ^ (reconnect_attempts st + 1 - 1)] \<rparr>"
    let ?st3 = "?st2\<lparr> connected_flag := False, n_connect := n_connect st + 1 \<rparr>"
    have nf: "\<not> ws_connect E (n_connect st)"
      using "1.prems"(2) False by simp
    have c: "connect E ?st2 = (Inl ConnectFailed, ?st3)"
      by (simp add: connect_def nf)
    have step: "reconnect E st = reconnect E ?st3"
      by (subst reconnect.simps) (simp only: False if_False c prod.case sum.case)
    have p1: "reconnect_attempts ?st3 \<le> max_reconnect_attempts ?st3"
      using False by simp
    have p2: "\<forall>k. n_connect ?st3 \<le> k \<and>
          k < n_connect ?st3 + (max_reconnect_attempts ?st3 - reconnect_attempts ?st3) \<longrightarrow> \<not> ws_connect E k"
    proof (intro allI impI)
      fix k
      assume "n_connect ?st3 \<le> k \<and>
          k < n_connect ?st3 + (max_reconnect_attempts ?st3 - reconnect_attempts ?st3)"
      then have "n_connect st \<le> k \<and>
          k < n_connect st + (max_reconnect_attempts st - reconnect_attempts st)"
        using False by simp arith
      then show "\<not> ws_connect E k"
        using "1.prems"(2) by blast
    qed
    note IH = "1.IH" [OF False c [symmetric] refl p1 p2]
    have n: "n_connect ?st3 + (max_reconnect_attempts ?st3 - reconnect_attempts ?st3) =
        n_connect st + (max_reconnect_attempts st - reconnect_attempts st)"
      using False by simp
    have sl: "sleeps ?st3 @ map (\<lambda>n. base_reconnect_delay ?st3 * 2 ^ n)
          [reconnect_attempts ?st3 ..< max_reconnect_attempts ?st3] =
        sleeps st @ map (\<lambda>n. base_reconnect_delay st * 2 ^ n)
          [reconnect_attempts st ..< max_reconnect_attempts st]"
      using False by (simp add: upt_conv_Cons [of "reconnect_attempts st"])
    from IH show ?thesis
      unfolding step n sl by simp
  qed
qed

lemma backoff_delays:
  "map (\<lambda>n. b * 2 ^ (n - 1)) [1 ..< m + 1] = map (\<lambda>n. (b::real) * 2 ^ n) [0 ..< m]"
  by (induction m) simp_all

lemma connect_ok:
  "ws_connect E (n_connect st) \<Longrightarrow>
   fst (connect E st) = Inr () \<and>
   n_connect (snd (connect E st)) = n_connect st + 1 \<and>
   sleeps (snd (connect E st)) = sleeps st \<and>
   reconnect_attempts (snd (connect E st)) = 0"
  by (simp add: connect_def resubscribe_all_frame)

lemma reconnect_one_succeeds:
  "reconnect_attempts st \<le> max_reconnect_attempts st \<Longrightarrow>
   (\<exists>k. n_connect st \<le> k \<and> k < n_connect st + (max_reconnect_attempts st - reconnect_attempts st)
        \<and> ws_connect E k) \<Longrightarrow>
   fst (reconnect E st) = Inr ()"
proof (induction E st rule: reconnect.induct)
  case (1 E st)
  from "1.prems"(2) have False: "\<not> max_reconnect_attempts st \<le> reconnect_attempts st"
    by auto
  let ?st2 = "st\<lparr> reconnect_attempts := reconnect_attempts st + 1,
                sleeps := sleeps st @ [base_reconnect_delay st * 2 ^ (reconnect_attempts st + 1 - 1)] \<rparr>"
  let ?st3 = "?st2\<lparr> connected_flag := False, n_connect := n_connect st + 1 \<rparr>"
  show ?case
  proof (cases "ws_connect E (n_connect st)")
    case True
    then obtain st' where c: "connect E ?st2 = (Inr (), st')"
      using connect_ok [of E ?st2] by (cases "connect E ?st2") auto
    show ?thesis
      by (subst reconnect.simps) (simp only: False if_False c prod.case sum.case fst_conv)
  next
    case nf: False
    have c: "connect E ?st2 = (Inl ConnectFailed, ?st3)"
      by (simp add: connect_def nf)
    have step: "reconnect E st = reconnect E ?st3"
      by (subst reconnect.simps) (simp only: False if_False c prod.case sum.case)
    have p1: "reconnect_attempts ?st3 \<le> max_reconnect_attempts ?st3"
      using False by simp
    from "1.prems"(2) obtain k where k: "n_connect st \<le> k"
        "k < n_connect st + (max_reconnect_attempts st - reconnect_attempts st)" "ws_connect E k"
      by blast
    with nf have "k \<noteq> n_connect st" by auto
    with k have "n_connect ?st3 \<le> k \<and>
        k < n_connect ?st3 + (max_reconnect_attempts ?st3 - reconnect_attempts ?st3) \<and> ws_connect E k"
      by simp
    then have p2: "\<exists>k. n_connect ?st3 \<le> k \<and>
        k < n_connect ?st3 + (max_reconnect_attempts ?st3 - reconnect_attempts ?st3) \<and> ws_connect E k"
      by blast
    from "1.IH" [OF False c [symmetric] refl p1 p2] show ?thesis
      unfolding step .
  qed
qed

lemma reconnect_shape:
  "reconnect_attempts st \<le> max_reconnect_attempts st \<Longrightarrow>
   \<exists>m. m \<le> max_reconnect_attempts st - reconnect_attempts st \<and>
       n_connect (snd (reconnect E st)) = n_connect st + m \<and>
       sleeps (snd (reconnect E st)) =
         sleeps st @ map (\<lambda>n. base_reconnect_delay st * 2 ^ n)
                        [reconnect_attempts st ..< reconnect_attempts st + m]"
proof (induction E st rule: reconnect.induct)
  case (1 E st)
  show ?case
  proof (cases "max_reconnect_attempts st \<le> reconnect_attempts st")
    case True
    have "reconnect E st = (Inl MaxReconnect, st)"
      by (subst reconnect.simps) (simp add: True)
    then show ?thesis by simp
  next
    case False
    let ?st2 = "st\<lparr> reconnect_attempts := reconnect_attempts st + 1,
                  sleeps := sleeps st @ [base_reconnect_delay st * 2 ^ (reconnect_attempts st + 1 - 1)] \<rparr>"
    let ?st3 = "?st2\<lparr> connected_flag := False, n_connect := n_connect st + 1 \<rparr>"
    show ?thesis
    proof (cases "ws_connect E (n_connect st)")
      case True
      obtain st' where c: "connect E ?st2 = (Inr (), st')"
        using connect_ok [of E ?st2] True by (cases "connect E ?st2") auto
      have f: "n_connect st' = n_connect st + 1" "sleeps st' = sleeps ?st2"
        using connect_ok [of E ?st2] True c by simp_all
      have r: "reconnect E st =
          (Inr (), st'\<lparr> stats := (stats st')\<lparr> reconnections := reconnections (stats st') + 1 \<rparr> \<rparr>)"
        by (subst reconnect.simps) (simp only: False if_False c prod.case sum.case)
      have "1 \<le> max_reconnect_attempts st - reconnect_attempts st \<and>
          n_connect (snd (reconnect E st)) = n_connect st + 1 \<and>
          sleeps (snd (reconnect E st)) =
            sleeps st @ map (\<lambda>n. base_reconnect_delay st * 2 ^ n)
                           [reconnect_attempts st ..< reconnect_attempts st + 1]"
        using False by (simp add: r f)
      then show ?thesis by blast
    next
      case nf: False
      have c: "connect E ?st2 = (Inl ConnectFailed, ?st3)"
        by (simp add: connect_def nf)
      have step: "reconnect E st = reconnect E ?st3"
        by (subst reconnect.simps) (simp only: False if_False c prod.case sum.case)
      have p1: "reconnect_attempts ?st3 \<le> max_reconnect_attempts ?st3"
        using False by simp
      from "1.IH" [OF False c [symmetric] refl p1] obtain m where
        m: "m \<le> max_reconnect_attempts ?st3 - reconnect_attempts ?st3"
           "n_connect (snd (reconnect E ?st3)) = n_connect ?st3 + m"
           "sleeps (snd (reconnect E ?st3)) =
             sleeps ?st3 @ map (\<lambda>n. base_reconnect_delay ?st3 * 2 ^ n)
                        [reconnect_attempts ?st3 ..< reconnect_attempts ?st3 + m]"
        by blast
      have "Suc m \<le> max_reconnect_attempts st - reconnect_attempts st"
        using m(1) False by simp
      moreover have "n_connect (snd (reconnect E st)) = n_connect st + Suc m"
        unfolding step using m(2) by simp
      moreover have "sleeps (snd (reconnect E st)) =
            sleeps st @ map (\<lambda>n. base_reconnect_delay st * 2 ^ n)
                           [reconnect_attempts st ..< reconnect_attempts st + Suc m]"
        unfolding step using m(3) by (simp add: upt_conv_Cons [of "reconnect_attempts st"])
      ultimately show ?thesis by blast
    qed
  qed
qed

text \<open>
  C6. \<^verbatim>\<open>reconnect\<close> on a manager whose failure counter is 0 makes at most
  \<^verbatim>\<open>max_reconnect_attempts\<close> calls of \<^verbatim>\<open>connect\<close>, and before attempt \<open>n\<close>, counted from 1,
  it sleeps \<^verbatim>\<open>base_reconnect_delay\<close> times \<open>2 ^ (n - 1)\<close>. When the next
  \<^verbatim>\<open>max_reconnect_attempts\<close> calls of \<^verbatim>\<open>connect\<close> all fail, it has made exactly that many,
  it fails with the maximum-attempts error, and a further \<^verbatim>\<open>reconnect\<close>, in whatever
  environment, fails at once with the manager unchanged: no sleep and no call of
  \<^verbatim>\<open>connect\<close>. When one of those calls succeeds, \<^verbatim>\<open>reconnect\<close> succeeds.
\<close>

theorem reconnect_backoff_bound:
  assumes "reconnect_attempts st = 0"
  shows "(\<exists>m \<le> max_reconnect_attempts st.
            n_connect (snd (reconnect E st)) = n_connect st + m \<and>
            sleeps (snd (reconnect E st)) =
              sleeps st @ map (\<lambda>n. base_reconnect_delay st * 2 ^ (n - 1)) [1 ..< m + 1]) \<and>
         ((\<forall>k. n_connect st \<le> k \<and> k < n_connect st + max_reconnect_attempts st \<longrightarrow> \<not> ws_connect E k) \<longrightarrow>
            fst (reconnect E st) = Inl MaxReconnect \<and>
            n_connect (snd (reconnect E st)) = n_connect st + max_reconnect_attempts st \<and>
            sleeps (snd (reconnect E st)) =
              sleeps st @ map (\<lambda>n. base_reconnect_delay st * 2 ^ (n - 1))
                             [1 ..< max_reconnect_attempts st + 1] \<and>
            reconnect E' (snd (reconnect E st)) = (Inl MaxReconnect, snd (reconnect E st))) \<and>
         ((\<exists>k. n_connect st \<le> k \<and> k < n_connect st + max_reconnect_attempts st \<and> ws_connect E k) \<longrightarrow>
            fst (reconnect E st) = Inr ())"
proof (intro conjI impI)
  from reconnect_shape [of st E] assms obtain m where
    "m \<le> max_reconnect_attempts st" "n_connect (snd (reconnect E st)) = n_connect st + m"
    "sleeps (snd (reconnect E st)) = sleeps st @ map (\<lambda>n. base_reconnect_delay st * 2 ^ n) [0 ..< m]"
    by auto
  then show "\<exists>m \<le> max_reconnect_attempts st.
            n_connect (snd (reconnect E st)) = n_connect st + m \<and>
            sleeps (snd (reconnect E st)) =
              sleeps st @ map (\<lambda>n. base_reconnect_delay st * 2 ^ (n - 1)) [1 ..< m + 1]"
    unfolding backoff_delays by blast
next
  assume "\<forall>k. n_connect st \<le> k \<and> k < n_connect st + max_reconnect_attempts st \<longrightarrow> \<not> ws_connect E k"
  with reconnect_all_fail [of st E] assms
  have r: "fst (reconnect E st) = Inl MaxReconnect"
      "n_connect (snd (reconnect E st)) = n_connect st + max_reconnect_attempts st"
      "sleeps (snd (reconnect E st)) =
        sleeps st @ map (\<lambda>n. base_reconnect_delay st * 2 ^ n) [0 ..< max_reconnect_attempts st]"
      "reconnect_attempts (snd (reconnect E st)) = max_reconnect_attempts st"
      "max_reconnect_attempts (snd (reconnect E st)) = max_reconnect_attempts st"
    by simp_all
  show "fst (reconnect E st) = Inl MaxReconnect" by (rule r(1))
  show "n_connect (snd (reconnect E st)) = n_connect st + max_reconnect_attempts st" by (rule r(2))
  show "sleeps (snd (reconnect E st)) =
      sleeps st @ map (\<lambda>n. base_reconnect_delay st * 2 ^ (n - 1)) [1 ..< max_reconnect_attempts st + 1]"
    unfolding backoff_delays by (rule r(3))
  show "reconnect E' (snd (reconnect E st)) = (Inl MaxReconnect, snd (reconnect E st))"
    by (subst reconnect.simps) (simp add: r(4,5))
next
  assume "\<exists>k. n_connect st \<le> k \<and> k < n_connect st + max_reconnect_attempts st \<and> ws_connect E k"
  with reconnect_one_succeeds [of st E] assms show "fst (reconnect E st) = Inr ()"
    by simp
qed

text \<open>A fresh manager, once with a transport that never opens and once with one that
  opens at the first attempt.\<close>

theorem reconnect_backoff_bound_witness:
  "reconnect_attempts init_manager = 0 \<and>
   fst (reconnect dead_env init_manager) = Inl MaxReconnect \<and>
   n_connect (snd (reconnect dead_env init_manager)) = 5 \<and>
   sleeps (snd (reconnect dead_env init_manager)) = [1, 2, 4, 8, 16] \<and>
   reconnect example_env (snd (reconnect dead_env init_manager)) =
     (Inl MaxReconnect, snd (reconnect dead_env init_manager)) \<and>
   fst (reconnect example_env init_manager) = Inr ()"
proof -
  have a: "reconnect_attempts init_manager = 0"
    by (simp add: init_manager_def)
  have b: "\<forall>k. n_connect init_manager \<le> k \<and> k < n_connect init_manager + max_reconnect_attempts init_manager
      \<longrightarrow> \<not> ws_connect dead_env k"
    by (simp add: dead_env_def)
  have c: "\<exists>k. n_connect init_manager \<le> k \<and> k < n_connect init_manager + max_reconnect_attempts init_manager
      \<and> ws_connect example_env k"
    by (rule exI [of _ 0]) (simp add: init_manager_def example_env_def)
  have d: "sleeps init_manager @ map (\<lambda>n. base_reconnect_delay init_manager * 2 ^ (n - 1))
      [1 ..< max_reconnect_attempts init_manager + 1] = [1, 2, 4, 8, 16]"
    by code_simp
  have e: "n_connect init_manager + max_reconnect_attempts init_manager = 5"
    by (simp add: init_manager_def)
  show ?thesis
    using reconnect_backoff_bound [OF a, of dead_env example_env]
      reconnect_backoff_bound [OF a, of example_env example_env] a b c
    unfolding d e by simp
qed


subsection \<open>Routing\<close>

lemma matches_string:
  "get_channel d = JStr channel \<Longrightarrow>
   message_matches_subscription E d sd = Inr (str_lower E (before_at channel) = str_lower E (sub_type sd))"
  by (simp add: message_matches_subscription_def)

lemma matches_not_string:
  "\<forall>channel. get_channel d \<noteq> JStr channel \<Longrightarrow>
   message_matches_subscription E d sd = Inl AttributeError"
  by (cases "get_channel d") (simp_all add: message_matches_subscription_def)

lemma dispatch_string:
  "get_channel d = JStr channel \<Longrightarrow>
   dispatch E d mh items =
     (Inr (),
      map (\<lambda>item. if str_lower E (before_at channel) = str_lower E (sub_type (snd item))
                   then (fst item, deliver (snd item)) else item) items,
      concat (map (\<lambda>item. if str_lower E (before_at channel) = str_lower E (sub_type (snd item))
                           then map (\<lambda>h. (h, JObj d)) (handlers_of mh (fst item)) else []) items))"
  by (induction items) (simp_all add: matches_string deliver_def)

lemma dispatch_not_string:
  "\<forall>channel. get_channel d \<noteq> JStr channel \<Longrightarrow> items \<noteq> [] \<Longrightarrow>
   dispatch E d mh items = (Inl AttributeError, items, [])"
  by (cases items) (simp_all add: matches_not_string)

lemma handle_message_string:
  assumes "json_loads E message = Some (JObj d)" and "get_channel d = JStr channel"
  shows "handle_message E message st =
     st\<lparr> stats := (stats st)\<lparr> messages_received := messages_received (stats st) + 1,
                              last_message_time := Some (now E (n_now st)) \<rparr>,
         n_now := n_now st + 2,
         subscriptions :=
           map (\<lambda>item. if str_lower E (before_at channel) = str_lower E (sub_type (snd item))
                        then (fst item, deliver (snd item)) else item) (subscriptions st),
         invoked := invoked st @
           concat (map (\<lambda>item. if str_lower E (before_at channel) = str_lower E (sub_type (snd item))
                                then map (\<lambda>h. (h, JObj d)) (handlers_of (message_handlers st) (fst item))
                                else []) (subscriptions st)),
         message_queue := message_queue st @ [(now E (n_now st + 1), JObj d)] \<rparr>"
  using assms by (simp add: handle_message_def Let_def dispatch_string cong: if_cong)

lemma handle_message_not_string:
  assumes "json_loads E message = Some (JObj d)" and "\<forall>channel. get_channel d \<noteq> JStr channel"
  shows "handle_message E message st =
     (if subscriptions st = []
      then st\<lparr> stats := (stats st)\<lparr> messages_received := messages_received (stats st) + 1,
                              last_message_time := Some (now E (n_now st)) \<rparr>,
               n_now := n_now st + 2,
               message_queue := message_queue st @ [(now E (n_now st + 1), JObj d)] \<rparr>
      else st\<lparr> stats := (stats st)\<lparr> messages_received := messages_received (stats st) + 1,
                              last_message_time := Some (now E (n_now st)) \<rparr>,
               n_now := n_now st + 1 \<rparr>)"
  using assms by (simp add: handle_message_def Let_def dispatch_not_string)

lemma handle_message_not_object:
  assumes "json_loads E message = Some data" and "\<forall>d. data \<noteq> JObj d"
  shows "handle_message E message st =
     st\<lparr> stats := (stats st)\<lparr> messages_received := messages_received (stats st) + 1,
                              last_message_time := Some (now E (n_now st)) \<rparr>,
         n_now := n_now st + 1 \<rparr>"
  using assms by (cases data) (simp_all add: handle_message_def Let_def)

lemma handle_message_not_json:
  "json_loads E message = None \<Longrightarrow> handle_message E message st = st"
  by (simp add: handle_message_def)

lemma handle_message_no_string_channel:
  assumes "\<not> (\<exists>d channel. json_loads E message = Some (JObj d) \<and> get_channel d = JStr channel)"
  shows "subscriptions (handle_message E message st) = subscriptions st"
    and "invoked (handle_message E message st) = invoked st"
proof -
  consider "json_loads E message = None"
    | data where "json_loads E message = Some data" "\<forall>d. data \<noteq> JObj d"
    | d where "json_loads E message = Some (JObj d)" "\<forall>channel. get_channel d \<noteq> JStr channel"
    using assms by (cases "json_loads E message") auto
  then have "subscriptions (handle_message E message st) = subscriptions st \<and>
      invoked (handle_message E message st) = invoked st"
  proof cases
    case 1
    then show ?thesis by (simp add: handle_message_not_json)
  next
    case 2
    then show ?thesis by (simp add: handle_message_not_object)
  next
    case 3
    then show ?thesis by (simp add: handle_message_not_string)
  qed
  then show "subscriptions (handle_message E message st) = subscriptions st"
    and "invoked (handle_message E message st) = invoked st"
    by simp_all
qed

text \<open>
  C7. The channel tag of a message is the text of its \<^verbatim>\<open>channel\<close> field before the first
  \<^verbatim>\<open>@\<close>: the whole field when it has no \<^verbatim>\<open>@\<close>, and the empty text when the field is
  absent. When the received text parses as a dict whose channel is a string,
  \<^verbatim>\<open>_handle_message\<close> delivers it to exactly the entries whose kind and the channel tag
  are equal after \<^verbatim>\<open>str.lower\<close>, whatever their parameters: the counter of each of them
  goes up by one, its callbacks are called with the message in the order of
  registration, and every other entry is left as it was. A text that does not parse,
  that parses to something else than a dict, or whose channel is not a string, has no
  channel tag, and is delivered to no entry.
\<close>

theorem routes_by_kind:
  "(json_loads E message = Some (JObj d) \<and> get_channel d = JStr channel \<longrightarrow>
      subscriptions (handle_message E message st) =
        map (\<lambda>item. if str_lower E (before_at channel) = str_lower E (sub_type (snd item))
                     then (fst item, deliver (snd item)) else item) (subscriptions st) \<and>
      invoked (handle_message E message st) =
        invoked st @
        concat (map (\<lambda>item. if str_lower E (before_at channel) = str_lower E (sub_type (snd item))
                             then map (\<lambda>h. (h, JObj d)) (handlers_of (message_handlers st) (fst item))
                             else []) (subscriptions st))) \<and>
   (\<not> (\<exists>d channel. json_loads E message = Some (JObj d) \<and> get_channel d = JStr channel) \<longrightarrow>
      subscriptions (handle_message E message st) = subscriptions st \<and>
      invoked (handle_message E message st) = invoked st) \<and>
   (CHR ''@'' \<notin> set channel \<longrightarrow> before_at channel = channel) \<and>
   (CHR ''@'' \<notin> set tag \<longrightarrow> before_at (tag @ CHR ''@'' # suffix) = tag)"
proof (intro conjI impI)
  assume "CHR ''@'' \<notin> set channel"
  then show "before_at channel = channel"
    by (auto simp add: before_at_def takeWhile_eq_all_conv)
next
  assume "CHR ''@'' \<notin> set tag"
  then show "before_at (tag @ CHR ''@'' # suffix) = tag"
    by (induction tag) (auto simp add: before_at_def)
next
  assume a: "json_loads E message = Some (JObj d) \<and> get_channel d = JStr channel"
  show "subscriptions (handle_message E message st) =
        map (\<lambda>item. if str_lower E (before_at channel) = str_lower E (sub_type (snd item))
                     then (fst item, deliver (snd item)) else item) (subscriptions st)"
    using a by (simp add: handle_message_string)
  show "invoked (handle_message E message st) =
        invoked st @
        concat (map (\<lambda>item. if str_lower E (before_at channel) = str_lower E (sub_type (snd item))
                             then map (\<lambda>h. (h, JObj d)) (handlers_of (message_handlers st) (fst item))
                             else []) (subscriptions st))"
    using a by (simp add: handle_message_string)
next
  assume n: "\<not> (\<exists>d channel. json_loads E message = Some (JObj d) \<and> get_channel d = JStr channel)"
  show "subscriptions (handle_message E message st) = subscriptions st"
    using n by (rule handle_message_no_string_channel)
  show "invoked (handle_message E message st) = invoked st"
    using n by (rule handle_message_no_string_channel)
qed

text \<open>
  A message of channel \<^verbatim>\<open>Trades\<close> and one of channel \<^verbatim>\<open>trades@BTC\<close> each reach the
  trades of BTC and the trades of ETH, and not the book of BTC; a message that parses to
  a list reaches no entry.
\<close>

theorem routes_by_kind_witness:
  "map (\<lambda>item. (fst item, sub_messages_received (snd item)))
     (subscriptions (handle_message example_env ''Trades'' (market_manager example_env))) =
     [(''l2Book_642'', 0), (''trades_642'', 1), (''trades_650'', 1)] \<and>
   invoked (handle_message example_env ''Trades'' (market_manager example_env)) =
     [(1, JObj [(''channel'', JStr ''Trades''), (''data'', JArr [])]),
      (2, JObj [(''channel'', JStr ''Trades''), (''data'', JArr [])])] \<and>
   map (\<lambda>item. (fst item, sub_messages_received (snd item)))
     (subscriptions (handle_message example_env ''trades BTC'' (market_manager example_env))) =
     [(''l2Book_642'', 0), (''trades_642'', 1), (''trades_650'', 1)] \<and>
   invoked (handle_message example_env ''trades BTC'' (market_manager example_env)) =
     [(1, JObj [(''channel'', JStr ''trades@BTC'')]), (2, JObj [(''channel'', JStr ''trades@BTC'')])] \<and>
   subscriptions (handle_message example_env ''list'' (market_manager example_env)) =
     subscriptions (market_manager example_env) \<and>
   invoked (handle_message example_env ''list'' (market_manager example_env)) =
     invoked (market_manager example_env) \<and>
   before_at ''Trades'' = ''Trades'' \<and>
   before_at ''trades@BTC'' = ''trades''"
proof -
  let ?st = "market_manager example_env"
  let ?d = "[(''channel'', JStr ''Trades''), (''data'', JArr [])]"
  let ?e = "[(''channel'', JStr ''trades@BTC'')]"
  have a: "json_loads example_env ''Trades'' = Some (JObj ?d) \<and> get_channel ?d = JStr ''Trades''"
    by code_simp
  have a': "json_loads example_env ''trades BTC'' = Some (JObj ?e) \<and> get_channel ?e = JStr ''trades@BTC''"
    by code_simp
  have b: "\<not> (\<exists>d channel. json_loads example_env ''list'' = Some (JObj d) \<and> get_channel d = JStr channel)"
    by (simp add: example_env_def)
  have n: "CHR ''@'' \<notin> set ''Trades''" "CHR ''@'' \<notin> set ''trades''"
    by simp_all
  have c: "map (\<lambda>item. (fst item, sub_messages_received (snd item)))
      (map (\<lambda>item. if str_lower example_env (before_at ''Trades'') = str_lower example_env (sub_type (snd item))
                    then (fst item, deliver (snd item)) else item)
        (subscriptions ?st)) =
      [(''l2Book_642'', 0), (''trades_642'', 1), (''trades_650'', 1)]"
    by code_simp
  have c': "map (\<lambda>item. (fst item, sub_messages_received (snd item)))
      (map (\<lambda>item. if str_lower example_env (before_at ''trades@BTC'') = str_lower example_env (sub_type (snd item))
                    then (fst item, deliver (snd item)) else item)
        (subscriptions ?st)) =
      [(''l2Book_642'', 0), (''trades_642'', 1), (''trades_650'', 1)]"
    by code_simp
  have d: "invoked ?st @
      concat (map (\<lambda>item. if str_lower example_env (before_at ''Trades'') = str_lower example_env (sub_type (snd item))
                           then map (\<lambda>h. (h, JObj ?d)) (handlers_of (message_handlers ?st) (fst item))
                           else []) (subscriptions ?st)) =
      [(1, JObj ?d), (2, JObj ?d)]"
    by code_simp
  have d': "invoked ?st @
      concat (map (\<lambda>item. if str_lower example_env (before_at ''trades@BTC'') = str_lower example_env (sub_type (snd item))
                           then map (\<lambda>h. (h, JObj ?e)) (handlers_of (message_handlers ?st) (fst item))
                           else []) (subscriptions ?st)) =
      [(1, JObj ?e), (2, JObj ?e)]"
    by code_simp
  note r1 = routes_by_kind [where E = example_env and message = "''Trades''" and d = ?d
    and channel = "''Trades''" and st = ?st and tag = "''trades''" and suffix = "''BTC''"]
  note r2 = routes_by_kind [where E = example_env and message = "''trades BTC''" and d = ?e
    and channel = "''trades@BTC''" and st = ?st]
  note r3 = routes_by_kind [where E = example_env and message = "''list''" and st = ?st]
  have t1: "subscriptions (handle_message example_env ''Trades'' ?st) =
        map (\<lambda>item. if str_lower example_env (before_at ''Trades'') = str_lower example_env (sub_type (snd item))
                     then (fst item, deliver (snd item)) else item) (subscriptions ?st)"
      "invoked (handle_message example_env ''Trades'' ?st) =
        invoked ?st @
        concat (map (\<lambda>item. if str_lower example_env (before_at ''Trades'') = str_lower example_env (sub_type (snd item))
                             then map (\<lambda>h. (h, JObj ?d)) (handlers_of (message_handlers ?st) (fst item))
                             else []) (subscriptions ?st))"
      "before_at ''Trades'' = ''Trades''"
      "before_at (''trades'' @ CHR ''@'' # ''BTC'') = ''trades''"
    using r1 a n by blast+
  have t2: "subscriptions (handle_message example_env ''trades BTC'' ?st) =
        map (\<lambda>item. if str_lower example_env (before_at ''trades@BTC'') = str_lower example_env (sub_type (snd item))
                     then (fst item, deliver (snd item)) else item) (subscriptions ?st)"
      "invoked (handle_message example_env ''trades BTC'' ?st) =
        invoked ?st @
        concat (map (\<lambda>item. if str_lower example_env (before_at ''trades@BTC'') = str_lower example_env (sub_type (snd item))
                             then map (\<lambda>h. (h, JObj ?e)) (handlers_of (message_handlers ?st) (fst item))
                             else []) (subscriptions ?st))"
    using r2 a' by blast+
  have t3: "subscriptions (handle_message example_env ''list'' ?st) = subscriptions ?st"
      "invoked (handle_message example_env ''list'' ?st) = invoked ?st"
    using r3 b by blast+
  have t4: "before_at ''trades@BTC'' = ''trades''"
    using t1(4) by simp
  show ?thesis
    unfolding t1(1,2) t2 t3 c c' d d' using t1(3) t4 by simp
qed

text \<open>
  C9, as the code has it. \<^verbatim>\<open>_handle_message\<close> puts the message at the end of the poll
  queue, once, when the text parses as a dict and the routing loop raises nothing: the
  registry is empty or the channel of the message is a string. It does so whether or not
  an entry matches. In every other case the queue is left as it was. A text that does
  not parse leaves the whole manager as it was, and a text that parses, to a dict or
  not, adds one to the \<^verbatim>\<open>messages_received\<close> of the statistics.
\<close>

theorem handle_message_enqueues:
  "(json_loads E message = Some (JObj d) \<and>
      (subscriptions st = [] \<or> (\<exists>channel. get_channel d = JStr channel)) \<longrightarrow>
      message_queue (handle_message E message st) =
        message_queue st @ [(now E (n_now st + 1), JObj d)]) \<and>
   (\<not> (\<exists>d. json_loads E message = Some (JObj d) \<and>
           (subscriptions st = [] \<or> (\<exists>channel. get_channel d = JStr channel))) \<longrightarrow>
      message_queue (handle_message E message st) = message_queue st) \<and>
   (json_loads E message = None \<longrightarrow> handle_message E message st = st) \<and>
   (json_loads E message \<noteq> None \<longrightarrow>
      messages_received (stats (handle_message E message st)) = messages_received (stats st) + 1)"
proof (intro conjI impI)
  assume a: "json_loads E message = Some (JObj d) \<and>
      (subscriptions st = [] \<or> (\<exists>channel. get_channel d = JStr channel))"
  show "message_queue (handle_message E message st) =
        message_queue st @ [(now E (n_now st + 1), JObj d)]"
  proof (cases "\<exists>channel. get_channel d = JStr channel")
    case True
    then show ?thesis using a by (auto simp add: handle_message_string)
  next
    case False
    then show ?thesis using a by (simp add: handle_message_not_string)
  qed
next
  assume n: "\<not> (\<exists>d. json_loads E message = Some (JObj d) \<and>
           (subscriptions st = [] \<or> (\<exists>channel. get_channel d = JStr channel)))"
  consider "json_loads E message = None"
    | data where "json_loads E message = Some data" "\<forall>d. data \<noteq> JObj d"
    | d where "json_loads E message = Some (JObj d)" "\<forall>channel. get_channel d \<noteq> JStr channel"
        "subscriptions st \<noteq> []"
    using n by (cases "json_loads E message") auto
  then show "message_queue (handle_message E message st) = message_queue st"
  proof cases
    case 1
    then show ?thesis by (simp add: handle_message_not_json)
  next
    case 2
    then show ?thesis by (simp add: handle_message_not_object)
  next
    case 3
    then show ?thesis by (simp add: handle_message_not_string)
  qed
next
  assume "json_loads E message = None"
  then show "handle_message E message st = st"
    by (rule handle_message_not_json)
next
  assume "json_loads E message \<noteq> None"
  then obtain data where data: "json_loads E message = Some data" by auto
  show "messages_received (stats (handle_message E message st)) = messages_received (stats st) + 1"
  proof (cases "\<exists>d. data = JObj d")
    case False
    then show ?thesis using data by (simp add: handle_message_not_object)
  next
    case True
    then obtain d where d: "data = JObj d" by blast
    show ?thesis
    proof (cases "\<exists>channel. get_channel d = JStr channel")
      case True
      then show ?thesis using data d by (auto simp add: handle_message_string)
    next
      case False
      then show ?thesis using data d by (simp add: handle_message_not_string)
    qed
  qed
qed

text \<open>
  On the manager with three subscriptions: a trades message that no entry of kind
  \<^verbatim>\<open>l2Book\<close> matches is queued, a message whose channel is a number is not, neither is
  one that parses to a list, and a text that does not parse changes nothing.
\<close>

theorem handle_message_enqueues_witness:
  "message_queue (handle_message example_env ''Trades'' (market_manager example_env)) =
     [(''T5'', JObj [(''channel'', JStr ''Trades''), (''data'', JArr [])])] \<and>
   message_queue (handle_message example_env ''channel 5'' (market_manager example_env)) = [] \<and>
   message_queue (handle_message example_env ''list'' (market_manager example_env)) = [] \<and>
   handle_message example_env ''no json'' (market_manager example_env) = market_manager example_env \<and>
   messages_received (stats (handle_message example_env ''list'' (market_manager example_env))) = 1"
proof -
  let ?d = "[(''channel'', JStr ''Trades''), (''data'', JArr [])]"
  let ?st = "market_manager example_env"
  have a: "json_loads example_env ''Trades'' = Some (JObj ?d) \<and>
      (subscriptions ?st = [] \<or> (\<exists>channel. get_channel ?d = JStr channel))"
    by (simp add: example_env_def get_channel_def)
  have s: "subscriptions ?st \<noteq> []" "message_queue ?st = []" "now example_env (n_now ?st + 1) = ''T5''"
      "messages_received (stats ?st) = 0"
    by code_simp+
  have b: "\<not> (\<exists>d. json_loads example_env ''channel 5'' = Some (JObj d) \<and>
           (subscriptions ?st = [] \<or> (\<exists>channel. get_channel d = JStr channel)))"
    using s(1) by (simp add: example_env_def get_channel_def)
  have c: "\<not> (\<exists>d. json_loads example_env ''list'' = Some (JObj d) \<and>
           (subscriptions ?st = [] \<or> (\<exists>channel. get_channel d = JStr channel)))"
    by (simp add: example_env_def)
  have e: "json_loads example_env ''no json'' = None" "json_loads example_env ''list'' \<noteq> None"
    by (simp_all add: example_env_def)
  show ?thesis
    using handle_message_enqueues [of example_env "''Trades''" ?d ?st]
      handle_message_enqueues [of example_env "''channel 5''" ?d ?st]
      handle_message_enqueues [of example_env "''list''" ?d ?st]
      handle_message_enqueues [of example_env "''no json''" ?d ?st]
      a b c e s(2,3,4)
    by simp
qed

text \<open>
  C9 as the specification words it fails. The text \<^verbatim>\<open>list\<close> parses as JSON, to a list.
  \<^verbatim>\<open>_handle_message\<close> counts it in the statistics and does not put it on the queue.
\<close>

theorem handle_message_drops_list_counterexample:
  "json_loads example_env ''list'' = Some (JArr [JInt 1]) \<and>
   message_queue (market_manager example_env) = [] \<and>
   message_queue (handle_message example_env ''list'' (market_manager example_env)) = [] \<and>
   messages_received (stats (market_manager example_env)) = 0 \<and>
   messages_received (stats (handle_message example_env ''list'' (market_manager example_env))) = 1"
  by code_simp

subsection \<open>The counters\<close>

lemma connect_subscriptions:
  "subscriptions (snd (connect E st)) = subscriptions st"
  by (simp add: connect_def resubscribe_all_frame)

lemma reconnect_subscriptions:
  "subscriptions (snd (reconnect E st)) = subscriptions st"
proof (induction E st rule: reconnect.induct)
  case (1 E st)
  show ?case
  proof (cases "max_reconnect_attempts st \<le> reconnect_attempts st")
    case True
    then show ?thesis by (subst reconnect.simps) simp
  next
    case False
    let ?st2 = "st\<lparr> reconnect_attempts := reconnect_attempts st + 1,
                  sleeps := sleeps st @ [base_reconnect_delay st * 2 ^ (reconnect_attempts st + 1 - 1)] \<rparr>"
    obtain r st3 where c: "connect E ?st2 = (r, st3)"
      by (cases "connect E ?st2")
    have s3: "subscriptions st3 = subscriptions st"
      using connect_subscriptions [of E ?st2] c by simp
    show ?thesis
    proof (cases r)
      case (Inl e)
      have "reconnect E st = reconnect E st3"
        by (subst reconnect.simps) (simp only: False if_False c Inl prod.case sum.case)
      then show ?thesis
        using "1.IH" [OF False c [symmetric] Inl] s3 by simp
    next
      case (Inr u)
      have "reconnect E st =
          (Inr (), st3\<lparr> stats := (stats st3)\<lparr> reconnections := reconnections (stats st3) + 1 \<rparr> \<rparr>)"
        by (subst reconnect.simps) (simp only: False if_False c Inr prod.case sum.case)
      then show ?thesis using s3 by simp
    qed
  qed
qed

lemma unsubscribe_other:
  "k \<noteq> sub_id \<Longrightarrow>
   map_of (subscriptions (snd (unsubscribe E sub_id st))) k = map_of (subscriptions st) k"
  by (auto simp add: unsubscribe_def send_message_def delete_conv' split: option.splits)

lemma unsubscribe_failed:
  "fst (unsubscribe E sub_id st) = Inl e \<Longrightarrow>
   subscriptions (snd (unsubscribe E sub_id st)) = subscriptions st"
  by (auto simp add: unsubscribe_def send_message_def split: option.splits if_splits)

lemma subscribe_other:
  "k \<noteq> make_sub_id E t p \<Longrightarrow>
   map_of (subscriptions (snd (subscribe E t p c st))) k = map_of (subscriptions st) k"
  by (cases c)
     (auto simp add: subscribe_def Let_def send_message_def update_conv' delete_conv')

lemma subscribe_success_entry:
  "fst (subscribe E t p c st) = Inr i \<Longrightarrow>
   i = make_sub_id E t p \<and>
   map_of (subscriptions (snd (subscribe E t p c st))) i =
     Some \<lparr> sub_type = t, sub_params = p, sub_message = subscribe_message t p, sub_callback = c,
            sub_messages_received = 0, subscribed_at = now E (n_now st) \<rparr>"
  by (cases c)
     (auto simp add: subscribe_def Let_def send_message_def update_conv' split: if_splits)

lemma delivers_to_string:
  "json_loads E message = Some (JObj d) \<Longrightarrow> get_channel d = JStr channel \<Longrightarrow>
   delivers_to E message sd = (str_lower E (before_at channel) = str_lower E (sub_type sd))"
  by (simp add: delivers_to_def matches_string)

lemma delivers_to_none:
  "\<not> (\<exists>d channel. json_loads E message = Some (JObj d) \<and> get_channel d = JStr channel) \<Longrightarrow>
   \<not> delivers_to E message sd"
  by (auto simp add: delivers_to_def matches_not_string split: option.splits json.splits)

lemma handle_message_counters:
  "map (\<lambda>item. (fst item, sub_messages_received (snd item)))
     (subscriptions (handle_message E message st)) =
   map (\<lambda>item. (fst item, sub_messages_received (snd item) +
                   (if delivers_to E message (snd item) then 1 else 0)))
     (subscriptions st)"
proof (cases "\<exists>d channel. json_loads E message = Some (JObj d) \<and> get_channel d = JStr channel")
  case True
  then obtain d channel where a: "json_loads E message = Some (JObj d)" "get_channel d = JStr channel"
    by blast
  show ?thesis
    by (simp add: handle_message_string [OF a] delivers_to_string [OF a] deliver_def comp_def
        cong: if_cong)
next
  case False
  then show ?thesis
    by (simp add: handle_message_no_string_channel(1) delivers_to_none)
qed

text \<open>
  C5, as the code has it. \<^verbatim>\<open>_handle_message\<close> adds exactly one to the counter of every
  entry it delivers the message to and leaves the other counters as they are; it
  delivers to an entry when the text parses as a dict whose channel is a string and the
  channel tag, the channel before the first \<^verbatim>\<open>@\<close>, equals the kind of the entry after
  \<^verbatim>\<open>str.lower\<close>. \<^verbatim>\<open>_resubscribe_all\<close>, \<^verbatim>\<open>connect\<close>, \<^verbatim>\<open>reconnect\<close>, the listing and
  the poll leave the registry as it is; \<^verbatim>\<open>unsubscribe\<close> leaves every entry but its own
  as it is, and the whole registry when it fails; \<^verbatim>\<open>subscribe\<close> leaves every entry of
  another identity as it is. A successful \<^verbatim>\<open>subscribe\<close> stores an entry whose counter is
  0 under its identity, also when that identity was registered already: subscribing the
  same identity again sets the counter back to 0.
\<close>

theorem counter_changes:
  "map (\<lambda>item. (fst item, sub_messages_received (snd item)))
     (subscriptions (handle_message E message st)) =
   map (\<lambda>item. (fst item, sub_messages_received (snd item) +
                   (if delivers_to E message (snd item) then 1 else 0)))
     (subscriptions st) \<and>
   (delivers_to E message entry \<longleftrightarrow>
      (\<exists>d channel. json_loads E message = Some (JObj d) \<and> get_channel d = JStr channel \<and>
         str_lower E (before_at channel) = str_lower E (sub_type entry))) \<and>
   subscriptions (resubscribe_all E st) = subscriptions st \<and>
   subscriptions (snd (connect E st)) = subscriptions st \<and>
   subscriptions (snd (reconnect E st)) = subscriptions st \<and>
   subscriptions (snd (get_active_subscriptions st)) = subscriptions st \<and>
   subscriptions (snd (get_next_message timeout arrival st)) = subscriptions st \<and>
   (k \<noteq> sub_id \<longrightarrow>
      map_of (subscriptions (snd (unsubscribe E sub_id st))) k = map_of (subscriptions st) k) \<and>
   ((\<exists>e. fst (unsubscribe E sub_id st) = Inl e) \<longrightarrow>
      subscriptions (snd (unsubscribe E sub_id st)) = subscriptions st) \<and>
   (k \<noteq> make_sub_id E t p \<longrightarrow>
      map_of (subscriptions (snd (subscribe E t p c st))) k = map_of (subscriptions st) k) \<and>
   (fst (subscribe E t p c st) = Inr i \<longrightarrow>
      i = make_sub_id E t p \<and>
      (\<exists>sd. map_of (subscriptions (snd (subscribe E t p c st))) i = Some sd \<and>
            sub_messages_received sd = 0))"
proof (intro conjI impI)
  show "map (\<lambda>item. (fst item, sub_messages_received (snd item)))
     (subscriptions (handle_message E message st)) =
   map (\<lambda>item. (fst item, sub_messages_received (snd item) +
                   (if delivers_to E message (snd item) then 1 else 0)))
     (subscriptions st)"
    by (rule handle_message_counters)
  show "delivers_to E message entry \<longleftrightarrow>
      (\<exists>d channel. json_loads E message = Some (JObj d) \<and> get_channel d = JStr channel \<and>
         str_lower E (before_at channel) = str_lower E (sub_type entry))"
  proof (cases "\<exists>d channel. json_loads E message = Some (JObj d) \<and> get_channel d = JStr channel")
    case True
    then obtain d channel where a: "json_loads E message = Some (JObj d)" "get_channel d = JStr channel"
      by blast
    show ?thesis
      using a delivers_to_string [OF a, of entry] by auto
  next
    case False
    then show ?thesis
      using delivers_to_none [of E message entry] by blast
  qed
  show "subscriptions (resubscribe_all E st) = subscriptions st"
    by (rule resubscribe_all_frame)
  show "subscriptions (snd (connect E st)) = subscriptions st"
    by (rule connect_subscriptions)
  show "subscriptions (snd (reconnect E st)) = subscriptions st"
    by (rule reconnect_subscriptions)
  show "subscriptions (snd (get_active_subscriptions st)) = subscriptions st"
    by (simp add: get_active_subscriptions_def)
  show "subscriptions (snd (get_next_message timeout arrival st)) = subscriptions st"
    by (simp add: get_next_message_def split: list.splits option.splits)
next
  assume "k \<noteq> sub_id"
  then show "map_of (subscriptions (snd (unsubscribe E sub_id st))) k = map_of (subscriptions st) k"
    by (rule unsubscribe_other)
next
  assume "\<exists>e. fst (unsubscribe E sub_id st) = Inl e"
  then show "subscriptions (snd (unsubscribe E sub_id st)) = subscriptions st"
    using unsubscribe_failed by blast
next
  assume "k \<noteq> make_sub_id E t p"
  then show "map_of (subscriptions (snd (subscribe E t p c st))) k = map_of (subscriptions st) k"
    by (rule subscribe_other)
next
  assume a: "fst (subscribe E t p c st) = Inr i"
  show "i = make_sub_id E t p"
    using subscribe_success_entry [OF a] by simp
  show "\<exists>sd. map_of (subscriptions (snd (subscribe E t p c st))) i = Some sd \<and>
            sub_messages_received sd = 0"
    using subscribe_success_entry [OF a] by auto
qed


text \<open>
  On the manager with three subscriptions: a trades message, an \<^verbatim>\<open>unsubscribe\<close> of the
  trades of BTC that succeeds and one that fails, a \<^verbatim>\<open>subscribe\<close> to the candles of BTC,
  and a second \<^verbatim>\<open>subscribe\<close> to the trades of BTC.
\<close>

theorem counter_changes_witness:
  "map (\<lambda>item. (fst item, sub_messages_received (snd item)))
     (subscriptions (handle_message example_env ''Trades'' (market_manager example_env))) =
     [(''l2Book_642'', 0), (''trades_642'', 1), (''trades_650'', 1)] \<and>
   map_of (subscriptions (snd (unsubscribe example_env ''trades_642'' (market_manager example_env))))
     ''trades_650'' = map_of (subscriptions (market_manager example_env)) ''trades_650'' \<and>
   subscriptions (snd (unsubscribe (flaky_env [3]) ''trades_642'' (market_manager (flaky_env [3])))) =
     subscriptions (market_manager (flaky_env [3])) \<and>
   map_of (subscriptions (snd (subscribe example_env ''candle'' (market_params ''BTC'' ''candle'') None
     (market_manager example_env)))) ''trades_650'' =
     map_of (subscriptions (market_manager example_env)) ''trades_650'' \<and>
   (\<exists>sd. map_of (subscriptions (snd (subscribe example_env ''trades'' [(''coin'', JStr ''BTC'')] None
            (market_manager example_env)))) ''trades_642'' = Some sd \<and>
         sub_messages_received sd = 0)"
proof -
  let ?st = "market_manager example_env"
  let ?p = "[(''coin'', JStr ''BTC'')]"
  have c1: "map (\<lambda>item. (fst item, sub_messages_received (snd item) +
                   (if delivers_to example_env ''Trades'' (snd item) then 1 else 0)))
      (subscriptions ?st) = [(''l2Book_642'', 0), (''trades_642'', 1), (''trades_650'', 1)]"
    by code_simp
  have h1: "''trades_650'' \<noteq> ''trades_642''"
    by simp
  have "fst (unsubscribe (flaky_env [3]) ''trades_642'' (market_manager (flaky_env [3]))) = Inl SendFailed"
    by code_simp
  then have h2: "\<exists>e. fst (unsubscribe (flaky_env [3]) ''trades_642'' (market_manager (flaky_env [3]))) = Inl e"
    by blast
  have h3: "''trades_650'' \<noteq> make_sub_id example_env ''candle'' (market_params ''BTC'' ''candle'')"
    by code_simp
  have h4: "fst (subscribe example_env ''trades'' ?p None ?st) = Inr ''trades_642''"
    by code_simp
  have id: "make_sub_id example_env ''trades'' ?p = ''trades_642''"
    by code_simp
  show ?thesis
    using c1 h1 h2 h3 h4
      counter_changes [where E = example_env and message = "''Trades''" and st = ?st
        and k = "''trades_650''" and sub_id = "''trades_642''" and t = "''candle''"
        and p = "market_params ''BTC'' ''candle''" and c = None]
      counter_changes [where E = "flaky_env [3]" and st = "market_manager (flaky_env [3])"
        and sub_id = "''trades_642''"]
      counter_changes [where E = example_env and st = ?st and t = "''trades''" and p = ?p
        and c = None and i = "''trades_642''"]
    by (simp add: id)
qed

text \<open>
  C5 as the specification words it fails. The trades subscription has received one
  message. A second \<^verbatim>\<open>subscribe\<close> of the same identity succeeds; the entry is still
  registered and its counter is 0 again.
\<close>

theorem resubscribe_resets_counter_counterexample:
  "map (\<lambda>item. (fst item, sub_messages_received (snd item)))
     (subscriptions (handle_message example_env ''Trades'' (trades_manager example_env))) =
     [(''trades_642'', 1)] \<and>
   fst (subscribe example_env ''trades'' [(''coin'', JStr ''BTC'')] None
     (handle_message example_env ''Trades'' (trades_manager example_env))) = Inr ''trades_642'' \<and>
   map (\<lambda>item. (fst item, sub_messages_received (snd item)))
     (subscriptions (snd (subscribe example_env ''trades'' [(''coin'', JStr ''BTC'')] None
       (handle_message example_env ''Trades'' (trades_manager example_env))))) =
     [(''trades_642'', 0)]"
  by code_simp


subsection \<open>Subscribing to market data\<close>

lemma keys_delete: "fst ` set (AList.delete k xs) = fst ` set xs - {k}"
  by (induction xs) auto

lemma keys_update: "fst ` set (AList.update k v xs) = insert k (fst ` set xs)"
  by (induction xs) auto

lemma unsubscribe_sent:
  assumes "connected_flag st" "ws st" "ws_send E (n_send st)"
  shows "registered (snd (unsubscribe E i st)) = registered st - {i}"
    and "connected_flag (snd (unsubscribe E i st))"
    and "ws (snd (unsubscribe E i st))"
    and "n_send st \<le> n_send (snd (unsubscribe E i st))"
proof -
  show "registered (snd (unsubscribe E i st)) = registered st - {i}"
  proof (cases "map_of (subscriptions st) i")
    case None
    then have "i \<notin> fst ` set (subscriptions st)"
      by (simp add: map_of_eq_None_iff)
    with None show ?thesis
      by (simp add: unsubscribe_def registered_def)
  next
    case (Some sd)
    with assms show ?thesis
      by (simp add: unsubscribe_def send_message_def registered_def keys_delete)
  qed
  show "connected_flag (snd (unsubscribe E i st))" "ws (snd (unsubscribe E i st))"
    "n_send st \<le> n_send (snd (unsubscribe E i st))"
    using assms by (auto simp add: unsubscribe_def send_message_def split: option.splits)
qed

lemma unsubscribe_not_sent:
  assumes "connected_flag st" "ws st" "\<not> ws_send E (n_send st)"
  shows "subscriptions (snd (unsubscribe E i st)) = subscriptions st"
    and "connected_flag (snd (unsubscribe E i st))"
    and "ws (snd (unsubscribe E i st))"
    and "n_send st \<le> n_send (snd (unsubscribe E i st))"
  using assms by (auto simp add: unsubscribe_def send_message_def split: option.splits)

lemma rollback_sent:
  "connected_flag st \<Longrightarrow> ws st \<Longrightarrow> (\<forall>k. n_send st \<le> k \<longrightarrow> ws_send E k) \<Longrightarrow>
   registered (rollback E ids st) = registered st - set ids"
proof (induction ids arbitrary: st)
  case Nil
  then show ?case by simp
next
  case (Cons i ids)
  have ok: "ws_send E (n_send st)" using Cons.prems(3) by simp
  note u = unsubscribe_sent [OF Cons.prems(1,2) ok, of i]
  have "\<forall>k. n_send (snd (unsubscribe E i st)) \<le> k \<longrightarrow> ws_send E k"
    using Cons.prems(3) u(4) by auto
  from Cons.IH [OF u(2,3) this] show ?case
    by (auto simp add: u(1))
qed

lemma rollback_not_sent:
  "connected_flag st \<Longrightarrow> ws st \<Longrightarrow> (\<forall>k. n_send st \<le> k \<longrightarrow> \<not> ws_send E k) \<Longrightarrow>
   subscriptions (rollback E ids st) = subscriptions st"
proof (induction ids arbitrary: st)
  case Nil
  then show ?case by simp
next
  case (Cons i ids)
  have no: "\<not> ws_send E (n_send st)" using Cons.prems(3) by simp
  note u = unsubscribe_not_sent [OF Cons.prems(1,2) no, of i]
  have "\<forall>k. n_send (snd (unsubscribe E i st)) \<le> k \<longrightarrow> \<not> ws_send E k"
    using Cons.prems(3) u(4) by auto
  from Cons.IH [OF u(2,3) this] show ?case
    by (simp add: u(1))
qed

lemma subscribe_send_fails:
  assumes "connected_flag st" "ws st" "\<not> ws_send E (n_send st)"
  shows "fst (subscribe E t p c st) = Inl (SubscribeFailed SendFailed)"
    and "registered (snd (subscribe E t p c st)) = registered st - {make_sub_id E t p}"
    and "n_send (snd (subscribe E t p c st)) = n_send st + 1"
    and "connected_flag (snd (subscribe E t p c st))"
    and "ws (snd (subscribe E t p c st))"
  using assms
  by (cases c; simp add: subscribe_def Let_def send_message_def registered_def keys_delete keys_update)+

lemma subscribe_sent_registered:
  assumes "connected_flag st" "ws st" "ws_send E (n_send st)"
  shows "registered (snd (subscribe E t p c st)) = insert (make_sub_id E t p) (registered st)"
  by (simp add: registered_def subscribe_ok(2) [OF assms] keys_update)

lemma subscribe_each_rollback_sent:
  "connected_flag st \<Longrightarrow> ws st \<Longrightarrow> j < length data_types \<Longrightarrow>
   (\<forall>k. n_send st \<le> k \<longrightarrow> (ws_send E k \<longleftrightarrow> k \<noteq> n_send st + j)) \<Longrightarrow>
   fst (subscribe_each E coin data_types c ids st) = Inl (SubscribeFailed SendFailed) \<and>
   registered (snd (subscribe_each E coin data_types c ids st)) =
     registered st - set ids - market_id E coin ` set (take (Suc j) data_types)"
proof (induction data_types arbitrary: j ids st)
  case Nil
  then show ?case by simp
next
  case (Cons d rest)
  let ?r = "subscribe E d (market_params coin d) c st"
  show ?case
  proof (cases j)
    case 0
    have no: "\<not> ws_send E (n_send st)"
      using Cons.prems(4) 0 by simp
    note f = subscribe_send_fails [OF Cons.prems(1,2) no, of d "market_params coin d" c]
    obtain st1 where r: "?r = (Inl (SubscribeFailed SendFailed), st1)"
      using f(1) by (cases ?r) auto
    have st1: "registered st1 = registered st - {market_id E coin d}" "connected_flag st1" "ws st1"
        "n_send st1 = n_send st + 1"
      using f r by (simp_all add: market_id_def)
    have "\<forall>k. n_send st1 \<le> k \<longrightarrow> ws_send E k"
      using Cons.prems(4) 0 st1(4) by simp
    from rollback_sent [OF st1(2,3) this, of ids]
    show ?thesis
      using 0 by (auto simp add: r st1(1))
  next
    case (Suc j')
    have ok: "ws_send E (n_send st)"
      using Cons.prems(4) Suc by simp
    note g = subscribe_ok [OF Cons.prems(1,2) ok, of d "market_params coin d" c]
    obtain st1 where r: "?r = (Inr (market_id E coin d), st1)"
      using g(1) by (cases ?r) (auto simp add: market_id_def)
    have st1: "connected_flag st1" "ws st1" "n_send st1 = n_send st + 1"
        "registered st1 = insert (market_id E coin d) (registered st)"
      using g subscribe_sent_registered [OF Cons.prems(1,2) ok, of d "market_params coin d" c] r
      by (simp_all add: market_id_def)
    have j': "j' < length rest" using Cons.prems(3) Suc by simp
    have "\<forall>k. n_send st1 \<le> k \<longrightarrow> (ws_send E k \<longleftrightarrow> k \<noteq> n_send st1 + j')"
      using Cons.prems(4) Suc st1(3) by simp
    from Cons.IH [OF st1(1,2) j' this, of "ids @ [market_id E coin d]"]
    show ?thesis
      using Suc by (auto simp add: r st1(4))
  qed
qed

lemma subscribe_each_rollback_not_sent:
  "connected_flag st \<Longrightarrow> ws st \<Longrightarrow> j < length data_types \<Longrightarrow>
   (\<forall>k. n_send st \<le> k \<longrightarrow> (ws_send E k \<longleftrightarrow> k < n_send st + j)) \<Longrightarrow>
   fst (subscribe_each E coin data_types c ids st) = Inl (SubscribeFailed SendFailed) \<and>
   registered (snd (subscribe_each E coin data_types c ids st)) =
     registered st \<union> market_id E coin ` set (take j data_types) - {market_id E coin (data_types ! j)}"
proof (induction data_types arbitrary: j ids st)
  case Nil
  then show ?case by simp
next
  case (Cons d rest)
  let ?r = "subscribe E d (market_params coin d) c st"
  show ?case
  proof (cases j)
    case 0
    have no: "\<not> ws_send E (n_send st)"
      using Cons.prems(4) 0 by simp
    note f = subscribe_send_fails [OF Cons.prems(1,2) no, of d "market_params coin d" c]
    obtain st1 where r: "?r = (Inl (SubscribeFailed SendFailed), st1)"
      using f(1) by (cases ?r) auto
    have st1: "registered st1 = registered st - {market_id E coin d}" "connected_flag st1" "ws st1"
        "n_send st1 = n_send st + 1"
      using f r by (simp_all add: market_id_def)
    have "\<forall>k. n_send st1 \<le> k \<longrightarrow> \<not> ws_send E k"
      using Cons.prems(4) 0 st1(4) by simp
    from rollback_not_sent [OF st1(2,3) this, of ids]
    have "registered (rollback E ids st1) = registered st1"
      by (simp add: registered_def)
    then show ?thesis
      using 0 by (simp add: r st1(1))
  next
    case (Suc j')
    have ok: "ws_send E (n_send st)"
      using Cons.prems(4) Suc by simp
    note g = subscribe_ok [OF Cons.prems(1,2) ok, of d "market_params coin d" c]
    obtain st1 where r: "?r = (Inr (market_id E coin d), st1)"
      using g(1) by (cases ?r) (auto simp add: market_id_def)
    have st1: "connected_flag st1" "ws st1" "n_send st1 = n_send st + 1"
        "registered st1 = insert (market_id E coin d) (registered st)"
      using g subscribe_sent_registered [OF Cons.prems(1,2) ok, of d "market_params coin d" c] r
      by (simp_all add: market_id_def)
    have j': "j' < length rest" using Cons.prems(3) Suc by simp
    have "\<forall>k. n_send st1 \<le> k \<longrightarrow> (ws_send E k \<longleftrightarrow> k < n_send st1 + j')"
      using Cons.prems(4) Suc st1(3) by simp
    from Cons.IH [OF st1(1,2) j' this, of "ids @ [market_id E coin d]"]
    show ?thesis
      using Suc by (auto simp add: r st1(4))
  qed
qed

lemma invalid_type_found:
  "\<exists>d \<in> set data_types. d \<notin> set valid_types \<Longrightarrow>
   \<exists>d. d \<in> set data_types \<and> d \<notin> set valid_types \<and>
       find (\<lambda>data_type. data_type \<notin> set valid_types) data_types = Some d"
  by (induction data_types) auto

lemma all_types_valid:
  "set data_types \<subseteq> set valid_types \<Longrightarrow>
   find (\<lambda>data_type. data_type \<notin> set valid_types) data_types = None"
  by (auto simp add: find_None_iff)


text \<open>
  C4, as the code has it. A data type outside the three valid ones makes
  \<^verbatim>\<open>subscribe_market_data\<close> fail with the invalid-data-type error before anything is
  registered: the manager is unchanged. With valid data types on a connected manager,
  let the send of registration \<open>j\<close>, counted from 0, fail after the earlier ones
  succeeded; the call then fails with the error of that registration. When the sends
  after the failed one succeed, the unsubscribe messages of the rollback go out, and the
  registry afterwards holds none of the identities of the first \<open>j + 1\<close> data types.
  When the sends after the failed one fail too, every \<^verbatim>\<open>unsubscribe\<close> of the rollback
  fails and is ignored: the identities registered by the call stay in the registry,
  apart from the identity of the failed registration.
\<close>

theorem subscribe_market_data_rollback:
  "((\<exists>d \<in> set data_types. d \<notin> set valid_types) \<longrightarrow>
      (\<exists>d. d \<in> set data_types \<and> d \<notin> set valid_types \<and>
           subscribe_market_data E coin data_types callback st = (Inl (InvalidDataType d), st))) \<and>
   (set data_types \<subseteq> set valid_types \<and> connected_flag st \<and> ws st \<and> j < length data_types \<and>
      (\<forall>k. n_send st \<le> k \<longrightarrow> (ws_send E k \<longleftrightarrow> k \<noteq> n_send st + j)) \<longrightarrow>
      fst (subscribe_market_data E coin data_types callback st) = Inl (SubscribeFailed SendFailed) \<and>
      registered (snd (subscribe_market_data E coin data_types callback st)) =
        registered st - market_id E coin ` set (take (Suc j) data_types)) \<and>
   (set data_types \<subseteq> set valid_types \<and> connected_flag st \<and> ws st \<and> j < length data_types \<and>
      (\<forall>k. n_send st \<le> k \<longrightarrow> (ws_send E k \<longleftrightarrow> k < n_send st + j)) \<longrightarrow>
      fst (subscribe_market_data E coin data_types callback st) = Inl (SubscribeFailed SendFailed) \<and>
      registered (snd (subscribe_market_data E coin data_types callback st)) =
        registered st \<union> market_id E coin ` set (take j data_types) -
          {market_id E coin (data_types ! j)})"
proof (intro conjI impI)
  assume "\<exists>d \<in> set data_types. d \<notin> set valid_types"
  from invalid_type_found [OF this] obtain d where
    d: "d \<in> set data_types" "d \<notin> set valid_types"
       "find (\<lambda>data_type. data_type \<notin> set valid_types) data_types = Some d"
    by blast
  have "subscribe_market_data E coin data_types callback st = (Inl (InvalidDataType d), st)"
    by (simp add: subscribe_market_data_def d(3))
  with d(1,2) show "\<exists>d. d \<in> set data_types \<and> d \<notin> set valid_types \<and>
      subscribe_market_data E coin data_types callback st = (Inl (InvalidDataType d), st)"
    by blast
next
  assume a: "set data_types \<subseteq> set valid_types \<and> connected_flag st \<and> ws st \<and> j < length data_types \<and>
      (\<forall>k. n_send st \<le> k \<longrightarrow> (ws_send E k \<longleftrightarrow> k \<noteq> n_send st + j))"
  then have e: "subscribe_market_data E coin data_types callback st =
      subscribe_each E coin data_types callback [] st"
    by (simp add: subscribe_market_data_def all_types_valid)
  from a have h: "connected_flag st" "ws st" "j < length data_types"
      "\<forall>k. n_send st \<le> k \<longrightarrow> (ws_send E k \<longleftrightarrow> k \<noteq> n_send st + j)"
    by blast+
  note r = subscribe_each_rollback_sent [OF h, of coin callback "[]"]
  show "fst (subscribe_market_data E coin data_types callback st) = Inl (SubscribeFailed SendFailed)"
    unfolding e using r by blast
  show "registered (snd (subscribe_market_data E coin data_types callback st)) =
        registered st - market_id E coin ` set (take (Suc j) data_types)"
    unfolding e using r by simp
next
  assume a: "set data_types \<subseteq> set valid_types \<and> connected_flag st \<and> ws st \<and> j < length data_types \<and>
      (\<forall>k. n_send st \<le> k \<longrightarrow> (ws_send E k \<longleftrightarrow> k < n_send st + j))"
  then have e: "subscribe_market_data E coin data_types callback st =
      subscribe_each E coin data_types callback [] st"
    by (simp add: subscribe_market_data_def all_types_valid)
  from a have h: "connected_flag st" "ws st" "j < length data_types"
      "\<forall>k. n_send st \<le> k \<longrightarrow> (ws_send E k \<longleftrightarrow> k < n_send st + j)"
    by blast+
  note r = subscribe_each_rollback_not_sent [OF h, of coin callback "[]"]
  show "fst (subscribe_market_data E coin data_types callback st) = Inl (SubscribeFailed SendFailed)"
    unfolding e using r by blast
  show "registered (snd (subscribe_market_data E coin data_types callback st)) =
        registered st \<union> market_id E coin ` set (take j data_types) -
          {market_id E coin (data_types ! j)}"
    unfolding e using r by blast
qed

text \<open>
  On a connected manager with an empty registry: the data types of the specification's
  example, with \<^verbatim>\<open>bogus\<close> last; the book and the candles of BTC when only the send of
  the candle registration fails; and the same when that send and the later ones fail.
\<close>

theorem subscribe_market_data_rollback_witness:
  "subscribe_market_data example_env ''BTC'' [''l2Book'', ''trades'', ''bogus''] (Some 1)
      (connected_manager example_env) =
     (Inl (InvalidDataType ''bogus''), connected_manager example_env) \<and>
   fst (subscribe_market_data (flaky_env [1]) ''BTC'' [''l2Book'', ''candle''] (Some 1)
      (connected_manager (flaky_env [1]))) = Inl (SubscribeFailed SendFailed) \<and>
   registered (snd (subscribe_market_data (flaky_env [1]) ''BTC'' [''l2Book'', ''candle''] (Some 1)
      (connected_manager (flaky_env [1])))) = {} \<and>
   registered (snd (subscribe_market_data (lossy_env 1) ''BTC'' [''l2Book'', ''candle''] (Some 1)
      (connected_manager (lossy_env 1)))) = {''l2Book_642''}"
proof -
  let ?bad = "[''l2Book'', ''trades'', ''bogus'']"
  let ?dts = "[''l2Book'', ''candle'']"
  have a: "\<exists>d \<in> set ?bad. d \<notin> set valid_types"
    by (simp add: valid_types_def)
  have a': "\<And>d. d \<in> set ?bad \<and> d \<notin> set valid_types \<Longrightarrow> d = ''bogus''"
    by (auto simp add: valid_types_def)
  have v: "set ?dts \<subseteq> set valid_types"
    by (simp add: valid_types_def)
  have s1: "connected_flag (connected_manager (flaky_env [1]))" "ws (connected_manager (flaky_env [1]))"
      "n_send (connected_manager (flaky_env [1])) = 0"
      "registered (connected_manager (flaky_env [1])) = {}"
    by (simp_all add: connected_manager_def connect_def flaky_env_def example_env_def init_manager_def
        resubscribe_all_def registered_def)
  have s2: "connected_flag (connected_manager (lossy_env 1))" "ws (connected_manager (lossy_env 1))"
      "n_send (connected_manager (lossy_env 1)) = 0"
      "registered (connected_manager (lossy_env 1)) = {}"
    by (simp_all add: connected_manager_def connect_def lossy_env_def example_env_def init_manager_def
        resubscribe_all_def registered_def)
  have o1: "\<forall>k. n_send (connected_manager (flaky_env [1])) \<le> k \<longrightarrow>
      (ws_send (flaky_env [1]) k \<longleftrightarrow> k \<noteq> n_send (connected_manager (flaky_env [1])) + 1)"
    unfolding s1(3) by (simp add: flaky_env_def)
  have o2: "\<forall>k. n_send (connected_manager (lossy_env 1)) \<le> k \<longrightarrow>
      (ws_send (lossy_env 1) k \<longleftrightarrow> k < n_send (connected_manager (lossy_env 1)) + 1)"
    unfolding s2(3) by (simp add: lossy_env_def)
  have j: "(1::nat) < length ?dts"
    by simp
  have i1: "market_id (lossy_env (Suc 0)) ''BTC'' ''l2Book'' = ''l2Book_642''"
      "market_id (lossy_env (Suc 0)) ''BTC'' ''candle'' = ''candle_1669''"
    by code_simp+
  from subscribe_market_data_rollback
    [where data_types = ?bad and E = example_env and coin = "''BTC''" and callback = "Some 1"
       and st = "connected_manager example_env"] a a'
  have t1: "subscribe_market_data example_env ''BTC'' ?bad (Some 1) (connected_manager example_env) =
     (Inl (InvalidDataType ''bogus''), connected_manager example_env)"
    by blast
  from subscribe_market_data_rollback
    [where data_types = ?dts and E = "flaky_env [1]" and coin = "''BTC''" and callback = "Some 1"
       and st = "connected_manager (flaky_env [1])" and j = 1] v s1 o1 j
  have t2: "fst (subscribe_market_data (flaky_env [1]) ''BTC'' ?dts (Some 1)
      (connected_manager (flaky_env [1]))) = Inl (SubscribeFailed SendFailed)"
    "registered (snd (subscribe_market_data (flaky_env [1]) ''BTC'' ?dts (Some 1)
      (connected_manager (flaky_env [1])))) = {}"
    by simp_all
  from subscribe_market_data_rollback
    [where data_types = ?dts and E = "lossy_env 1" and coin = "''BTC''" and callback = "Some 1"
       and st = "connected_manager (lossy_env 1)" and j = 1] v s2 o2 j
  have t3: "registered (snd (subscribe_market_data (lossy_env 1) ''BTC'' ?dts (Some 1)
      (connected_manager (lossy_env 1)))) = {''l2Book_642''}"
    by (simp add: i1)
  from t1 t2 t3 show ?thesis
    by simp
qed

text \<open>
  C4 as the specification words it fails. The book and the candles of BTC are requested
  on a connected manager; the send of the book registration succeeds and every later
  send fails. The call fails, and the book registration it created is still in the
  registry.
\<close>

theorem rollback_keeps_entry_counterexample:
  "fst (subscribe_market_data (lossy_env 1) ''BTC'' [''l2Book'', ''candle''] (Some 1)
      (connected_manager (lossy_env 1))) = Inl (SubscribeFailed SendFailed) \<and>
   subscriptions (connected_manager (lossy_env 1)) = [] \<and>
   map fst (subscriptions (snd (subscribe_market_data (lossy_env 1) ''BTC'' [''l2Book'', ''candle'']
      (Some 1) (connected_manager (lossy_env 1))))) = [''l2Book_642'']"
  by code_simp


subsection \<open>The registry has one entry for a key\<close>

text \<open>\<^verbatim>\<open>self.subscriptions\<close> is a dict. Its model starts with distinct keys and every
  operation keeps them distinct.\<close>

lemma init_manager_distinct: "distinct (map fst (subscriptions init_manager))"
  by (simp add: init_manager_def)

lemma subscribe_distinct:
  "distinct (map fst (subscriptions st)) \<Longrightarrow>
   distinct (map fst (subscriptions (snd (subscribe E t p c st))))"
  by (cases c)
     (auto simp add: subscribe_def Let_def send_message_def distinct_update distinct_delete)

lemma unsubscribe_distinct:
  "distinct (map fst (subscriptions st)) \<Longrightarrow>
   distinct (map fst (subscriptions (snd (unsubscribe E sub_id st))))"
  by (auto simp add: unsubscribe_def send_message_def distinct_delete split: option.splits)

lemma handle_message_keys:
  "map fst (subscriptions (handle_message E message st)) = map fst (subscriptions st)"
proof -
  have "map fst (map (\<lambda>item. (fst item, sub_messages_received (snd item)))
      (subscriptions (handle_message E message st))) =
    map fst (map (\<lambda>item. (fst item, sub_messages_received (snd item) +
                   (if delivers_to E message (snd item) then 1 else 0))) (subscriptions st))"
    by (simp only: handle_message_counters)
  then show ?thesis by (simp add: comp_def)
qed

lemma handle_message_distinct:
  "distinct (map fst (subscriptions st)) \<Longrightarrow>
   distinct (map fst (subscriptions (handle_message E message st)))"
  by (simp add: handle_message_keys)

lemma reconnect_distinct:
  "distinct (map fst (subscriptions st)) \<Longrightarrow>
   distinct (map fst (subscriptions (snd (reconnect E st))))"
  by (simp add: reconnect_subscriptions)

subsection \<open>Polling\<close>

lemma handle_message_queue_grows:
  "message_queue (handle_message E message st) = message_queue st \<or>
   (\<exists>x. message_queue (handle_message E message st) = message_queue st @ [x])"
proof (cases "json_loads E message")
  case None
  then show ?thesis by (simp add: handle_message_not_json)
next
  case (Some data)
  show ?thesis
  proof (cases "\<exists>d. data = JObj d")
    case False
    then show ?thesis using Some by (simp add: handle_message_not_object)
  next
    case True
    then obtain d where d: "data = JObj d" by blast
    show ?thesis
    proof (cases "\<exists>channel. get_channel d = JStr channel")
      case True
      then show ?thesis using Some d by (auto simp add: handle_message_string)
    next
      case False
      then show ?thesis using Some d by (simp add: handle_message_not_string)
    qed
  qed
qed

text \<open>
  C10, as the code has it. \<^verbatim>\<open>get_next_message\<close> returns a message or \<^verbatim>\<open>None\<close> and
  raises nothing. With a positive timeout it takes the message at the head of the
  queue; on an empty queue it returns the message that arrives before the timeout, and
  \<^verbatim>\<open>None\<close> when none arrives. With a timeout of zero or less it returns \<^verbatim>\<open>None\<close> and
  leaves the queue as it is, also when the queue holds messages. The head of the queue
  is the oldest message: \<^verbatim>\<open>_handle_message\<close> leaves the head of a queue that is not
  empty where it is.
\<close>

theorem get_next_message_outcomes:
  "(0 < timeout \<and> message_queue st = m # rest \<longrightarrow>
      get_next_message timeout arrival st = (Some m, st\<lparr> message_queue := rest \<rparr>)) \<and>
   (0 < timeout \<and> message_queue st = [] \<and> arrival = Some m \<longrightarrow>
      get_next_message timeout arrival st = (Some m, st)) \<and>
   (0 < timeout \<and> message_queue st = [] \<and> arrival = None \<longrightarrow>
      get_next_message timeout arrival st = (None, st)) \<and>
   (timeout \<le> 0 \<longrightarrow> get_next_message timeout arrival st = (None, st)) \<and>
   (message_queue st = m # rest \<longrightarrow>
      (\<exists>rest'. message_queue (handle_message E message st) = m # rest'))"
proof (intro conjI impI)
  assume "message_queue st = m # rest"
  then show "\<exists>rest'. message_queue (handle_message E message st) = m # rest'"
    using handle_message_queue_grows [of E message st] by auto
qed (simp_all add: get_next_message_def)

text \<open>
  The manager with three subscriptions after two trades messages, polled twice with
  the default timeout, then a third time while nothing arrives, and while a message
  arrives; and the same manager polled with a timeout of zero.
\<close>

theorem get_next_message_outcomes_witness:
  "map fst (message_queue (two_messages example_env)) = [''T5'', ''T7''] \<and>
   map_option fst (fst (get_next_message 1 None (two_messages example_env))) = Some ''T5'' \<and>
   map_option fst (fst (get_next_message 1 None
     (snd (get_next_message 1 None (two_messages example_env))))) = Some ''T7'' \<and>
   fst (get_next_message 1 None (snd (get_next_message 1 None
     (snd (get_next_message 1 None (two_messages example_env)))))) = None \<and>
   fst (get_next_message 1 (Some (''T9'', JNull)) (snd (get_next_message 1 None
     (snd (get_next_message 1 None (two_messages example_env)))))) = Some (''T9'', JNull) \<and>
   get_next_message 0 None (two_messages example_env) = (None, two_messages example_env)"
proof -
  let ?d = "JObj [(''channel'', JStr ''Trades''), (''data'', JArr [])]"
  let ?st = "two_messages example_env"
  have q: "message_queue ?st = (''T5'', ?d) # [(''T7'', ?d)]"
    by code_simp
  note a = get_next_message_outcomes
    [where timeout = 1 and st = ?st and m = "(''T5'', ?d)" and rest = "[(''T7'', ?d)]" and arrival = None]
  have r1: "get_next_message 1 None ?st = (Some (''T5'', ?d), ?st\<lparr> message_queue := [(''T7'', ?d)] \<rparr>)"
    using a q by simp
  let ?st1 = "?st\<lparr> message_queue := [(''T7'', ?d)] \<rparr>"
  note b = get_next_message_outcomes
    [where timeout = 1 and st = ?st1 and m = "(''T7'', ?d)" and rest = "[]" and arrival = None]
  let ?st2 = "?st\<lparr> message_queue := [] \<rparr>"
  have r2: "get_next_message 1 None ?st1 = (Some (''T7'', ?d), ?st2)"
    using b by simp
  note c = get_next_message_outcomes [where timeout = 1 and st = ?st2 and arrival = None]
  have r3: "get_next_message 1 None ?st2 = (None, ?st2)"
    using c by simp
  note d = get_next_message_outcomes
    [where timeout = 1 and st = ?st2 and arrival = "Some (''T9'', JNull)" and m = "(''T9'', JNull)"]
  have r4: "get_next_message 1 (Some (''T9'', JNull)) ?st2 = (Some (''T9'', JNull), ?st2)"
    using d by simp
  note e = get_next_message_outcomes [where timeout = 0 and st = ?st and arrival = None]
  have r5: "get_next_message 0 None ?st = (None, ?st)"
    using e by simp
  show ?thesis
    by (simp add: q r1 r2 r3 r4 r5)
qed

text \<open>
  C10 as the specification words it fails. The queue holds two messages and the poll
  has a timeout of zero: it returns \<^verbatim>\<open>None\<close>, and the two messages are still queued.
\<close>

theorem poll_with_zero_timeout_counterexample:
  "map fst (message_queue (two_messages example_env)) = [''T5'', ''T7''] \<and>
   fst (get_next_message 0 None (two_messages example_env)) = None \<and>
   map fst (message_queue (snd (get_next_message 0 None (two_messages example_env)))) = [''T5'', ''T7'']"
  by code_simp

end
